theory Spec2Isabelle
  imports Main "HOL-Library.Sublist"
begin

section \<open>Strings and regular expressions of the host language\<close>

text \<open>
  The program is TypeScript. Its strings are sequences of UTF-16 code units, so a
  string is modelled as a list of code units (natural numbers); \<open>str\<close> embeds an
  ASCII literal. Names of node kinds, rule identifiers and language keys are ASCII and
  stay HOL strings.
\<close>

type_synonym cu = nat

definition str :: "string \<Rightarrow> cu list" where
  "str s = map of_char s"

text \<open>
  \<open>isSpace\<close> is the set matched by \<^verbatim>\<open>\s\<close>, which is also the set removed by
  \<^verbatim>\<open>String.prototype.trim\<close> (WhiteSpace and LineTerminator); \<open>isDigit\<close> is
  \<^verbatim>\<open>\d\<close> and \<open>isWord\<close> is \<^verbatim>\<open>\w\<close>.
\<close>

definition isSpace :: "cu \<Rightarrow> bool" where
  "isSpace u \<longleftrightarrow> (9 \<le> u \<and> u \<le> 13) \<or> u = 32 \<or> u = 160 \<or> u = 5760
     \<or> (8192 \<le> u \<and> u \<le> 8202) \<or> u = 8232 \<or> u = 8233 \<or> u = 8239 \<or> u = 8287
     \<or> u = 12288 \<or> u = 65279"

definition isDigit :: "cu \<Rightarrow> bool" where
  "isDigit u \<longleftrightarrow> 48 \<le> u \<and> u \<le> 57"

definition isWord :: "cu \<Rightarrow> bool" where
  "isWord u \<longleftrightarrow> (48 \<le> u \<and> u \<le> 57) \<or> (65 \<le> u \<and> u \<le> 90) \<or> u = 95 \<or> (97 \<le> u \<and> u \<le> 122)"

definition trim :: "cu list \<Rightarrow> cu list" where
  "trim s = rev (dropWhile isSpace (rev (dropWhile isSpace s)))"

text \<open>
  Under the \<^verbatim>\<open>i\<close> flag (without \<^verbatim>\<open>u\<close>) two code units match when their
  canonical forms agree. Every character written in the program's patterns is ASCII
  or U+2026, and for those the canonical form is ASCII upper-casing: a non-ASCII code
  unit never canonicalises to an ASCII one.
\<close>

definition canon :: "cu \<Rightarrow> cu" where
  "canon u = (if 97 \<le> u \<and> u \<le> 122 then u - 32 else u)"

definition eqc :: "bool \<Rightarrow> cu \<Rightarrow> cu \<Rightarrow> bool" where
  "eqc ci p u = (if ci then canon p = canon u else p = u)"

text \<open>
  The fragment of the regular-expression syntax that the program uses: the assertions
  \<^verbatim>\<open>^\<close> and \<^verbatim>\<open>\b\<close>, literals, the classes \<^verbatim>\<open>\s \d \w [...]\<close>,
  a quantifier \<^verbatim>\<open>{lo,hi}\<close> on a single character or class (\<^verbatim>\<open>? * +\<close> are
  instances), sequence and alternation. No pattern has a capture group, a
  back-reference or a quantified group other than an optional one.
\<close>

datatype cls = Space | Digit | WordCh | OneOf "cu list"

fun inCls :: "bool \<Rightarrow> cls \<Rightarrow> cu \<Rightarrow> bool" where
  "inCls ci Space u = isSpace u"
| "inCls ci Digit u = isDigit u"
| "inCls ci WordCh u = isWord u"
| "inCls ci (OneOf cs) u = list_ex (\<lambda>c. eqc ci c u) cs"

datatype rx = Eps | Bol | WordB | Lit "cu list" | Cls cls | Rep cls nat "nat option"
  | Seq rx rx | Alt rx rx

text \<open>
  A position in the subject is the code unit just consumed (none at the start of the
  input) and the rest of the input. \<open>ms ci r p\<close> lists the positions at which a match
  of \<open>r\<close> begun at \<open>p\<close> can end. \<^verbatim>\<open>RegExp.prototype.test\<close> only asks whether some
  match exists, so the order in which a backtracking matcher would try them is
  immaterial, and none of the patterns carries the \<^verbatim>\<open>g\<close> or \<^verbatim>\<open>y\<close> flag, so
  \<open>test\<close> keeps no state between calls.
\<close>

type_synonym pos = "cu option \<times> cu list"

fun lit :: "bool \<Rightarrow> cu list \<Rightarrow> pos \<Rightarrow> pos list" where
  "lit ci [] p = [p]"
| "lit ci (c # cs) (prev, []) = []"
| "lit ci (c # cs) (prev, u # us) = (if eqc ci c u then lit ci cs (Some u, us) else [])"

fun many :: "(cu \<Rightarrow> bool) \<Rightarrow> pos \<Rightarrow> pos list" where
  "many P (prev, []) = [(prev, [])]"
| "many P (prev, u # us) = (prev, u # us) # (if P u then many P (Some u, us) else [])"

definition wordBoundary :: "pos \<Rightarrow> bool" where
  "wordBoundary p \<longleftrightarrow>
     (case fst p of None \<Rightarrow> False | Some u \<Rightarrow> isWord u)
       \<noteq> (case snd p of [] \<Rightarrow> False | u # _ \<Rightarrow> isWord u)"

fun ms :: "bool \<Rightarrow> rx \<Rightarrow> pos \<Rightarrow> pos list" where
  "ms ci Eps p = [p]"
| "ms ci Bol p = (if fst p = None then [p] else [])"
| "ms ci WordB p = (if wordBoundary p then [p] else [])"
| "ms ci (Lit l) p = lit ci l p"
| "ms ci (Cls c) p =
     (case snd p of [] \<Rightarrow> [] | u # us \<Rightarrow> if inCls ci c u then [(Some u, us)] else [])"
| "ms ci (Rep c lo hi) p =
     (case hi of None \<Rightarrow> drop lo (many (inCls ci c) p)
      | Some h \<Rightarrow> drop lo (take (Suc h) (many (inCls ci c) p)))"
| "ms ci (Seq r1 r2) p = concat (map (ms ci r2) (ms ci r1 p))"
| "ms ci (Alt r1 r2) p = ms ci r1 p @ ms ci r2 p"

fun search :: "bool \<Rightarrow> rx \<Rightarrow> pos \<Rightarrow> bool" where
  "search ci r (prev, []) = (ms ci r (prev, []) \<noteq> [])"
| "search ci r (prev, u # us) = (ms ci r (prev, u # us) \<noteq> [] \<or> search ci r (Some u, us))"

record regex =
  source :: rx
  ignoreCase :: bool

definition test :: "regex \<Rightarrow> cu list \<Rightarrow> bool" where
  "test re s = search (ignoreCase re) (source re) (None, s)"

text \<open>Notation for writing the patterns down as they appear in the source.\<close>

definition L :: "string \<Rightarrow> rx" where
  "L s = Lit (str s)"

definition optc :: "string \<Rightarrow> rx" where
  "optc s = Rep (OneOf (str s)) 0 (Some 1)"

definition opt :: "rx \<Rightarrow> rx" where
  "opt r = Alt r Eps"

fun seqs :: "rx list \<Rightarrow> rx" where
  "seqs [] = Eps"
| "seqs [r] = r"
| "seqs (r # rs) = Seq r (seqs rs)"

fun alts :: "rx list \<Rightarrow> rx" where
  "alts [] = Eps"
| "alts [r] = r"
| "alts (r # rs) = Alt r (alts rs)"

section \<open>The language registry\<close>

text \<open>
  \<^verbatim>\<open>LanguageConfig\<close> and the table \<^verbatim>\<open>LANGUAGES\<close> of \<^verbatim>\<open>src/languages.ts\<close> (its
  text follows that of \<^verbatim>\<open>src/cli.ts\<close> in the source tree), with the entry for Ruby
  that the bundled program (\<^verbatim>\<open>unnamed/part_001\<close>, lines 163 to 221) has. \<^verbatim>\<open>Lang.TypeScript\<close> and \<^verbatim>\<open>Lang.JavaScript\<close> are the parser library's
  enumeration values, the strings \<^verbatim>\<open>"TypeScript"\<close> and \<^verbatim>\<open>"JavaScript"\<close> that
  the rule tables of the program use as keys.
\<close>

record LanguageConfig =
  lang :: string
  commentKinds :: "string list"
  extensions :: "string list"
  toolDirectives :: regex

definition typescript_config :: LanguageConfig where
  "typescript_config = \<lparr>lang = ''TypeScript'', commentKinds = [''comment''],
     extensions = [''ts'', ''tsx'', ''mts'', ''cts''],
     toolDirectives =
     \<lparr>source = alts [L ''eslint'', L ''prettier'', L ''@ts-'', L ''istanbul'', L ''c8'',
     L ''vitest'', L ''jest'', L ''biome'', L ''oxlint''], ignoreCase = True\<rparr>\<rparr>"

definition javascript_config :: LanguageConfig where
  "javascript_config = \<lparr>lang = ''JavaScript'', commentKinds = [''comment''],
     extensions = [''js'', ''jsx'', ''mjs'', ''cjs''],
     toolDirectives =
     \<lparr>source = alts [L ''eslint'', L ''prettier'', L ''istanbul'', L ''c8'', L ''vitest'',
     L ''jest'', L ''webpack'', L ''biome'', L ''oxlint''], ignoreCase = True\<rparr>\<rparr>"

definition python_config :: LanguageConfig where
  "python_config = \<lparr>lang = ''python'', commentKinds = [''comment''],
     extensions = [''py'', ''pyi''],
     toolDirectives =
     \<lparr>source = alts [L ''noqa'', seqs [L ''type:'', Rep Space 0 None, L ''ignore''],
     L ''pylint'', L ''mypy'', L ''pyright'', L ''ruff'', L ''fmt'', L ''isort''],
     ignoreCase = True\<rparr>\<rparr>"

definition go_config :: LanguageConfig where
  "go_config = \<lparr>lang = ''go'', commentKinds = [''comment''],
     extensions = [''go''],
     toolDirectives =
     \<lparr>source = alts [L ''nolint'', L ''go:generate'', L ''go:build'', L ''go:embed'',
     L ''gofmt'', L ''govet''], ignoreCase = True\<rparr>\<rparr>"

definition rust_config :: LanguageConfig where
  "rust_config = \<lparr>lang = ''rust'', commentKinds = [''line_comment'', ''block_comment''],
     extensions = [''rs''],
     toolDirectives =
     \<lparr>source = alts [L ''clippy'', L ''allow'', L ''deny'', L ''forbid'', L ''expect'',
     L ''cfg'', L ''rustfmt'', L ''SAFETY'', L ''safety''], ignoreCase = False\<rparr>\<rparr>"

definition c_config :: LanguageConfig where
  "c_config = \<lparr>lang = ''c'', commentKinds = [''comment''],
     extensions = [''c'', ''h''],
     toolDirectives =
     \<lparr>source = alts [L ''NOLINT'', L ''NOLINTNEXTLINE'', L ''clang-format'', L ''IWYU'',
     L ''pragma''], ignoreCase = True\<rparr>\<rparr>"

definition cpp_config :: LanguageConfig where
  "cpp_config = \<lparr>lang = ''cpp'', commentKinds = [''comment''],
     extensions = [''cpp'', ''cc'', ''cxx'', ''hpp'', ''hh'', ''hxx''],
     toolDirectives =
     \<lparr>source = alts [L ''NOLINT'', L ''NOLINTNEXTLINE'', L ''clang-format'', L ''IWYU'',
     L ''pragma''], ignoreCase = True\<rparr>\<rparr>"

definition java_config :: LanguageConfig where
  "java_config = \<lparr>lang = ''java'', commentKinds = [''line_comment'', ''block_comment''],
     extensions = [''java''],
     toolDirectives =
     \<lparr>source = alts [L ''checkstyle'', L ''SuppressWarnings'', L ''PMD'', L ''SpotBugs'',
     L ''NOSONAR'', L ''noinspection''], ignoreCase = True\<rparr>\<rparr>"

definition ruby_config :: LanguageConfig where
  "ruby_config = \<lparr>lang = ''ruby'', commentKinds = [''comment''],
     extensions = [''rb'', ''rake''],
     toolDirectives =
     \<lparr>source = alts [L ''rubocop'', L ''sorbet'', L ''sig'', L ''steep'', L ''yard'',
     L '':nocov:'', L ''frozen_string_literal''], ignoreCase = True\<rparr>\<rparr>"

definition LANGUAGES :: "(string \<times> LanguageConfig) list" where
  "LANGUAGES =
     [(''typescript'', typescript_config), (''javascript'', javascript_config),
      (''python'', python_config), (''go'', go_config), (''rust'', rust_config),
      (''c'', c_config), (''cpp'', cpp_config), (''java'', java_config),
      (''ruby'', ruby_config)]"

definition languageForExtension :: "string \<Rightarrow> LanguageConfig option" where
  "languageForExtension ext = find (\<lambda>l. ext \<in> set (extensions l)) (map snd LANGUAGES)"

section \<open>Comment rules\<close>

text \<open>
  The source tree holds two revisions of \<^verbatim>\<open>src/rules/comments.ts\<close>. The one with
  seven comment rules (\<^verbatim>\<open>unnamed/part_000\<close>) is the one that the README, the test
  suite and the bundled program with Ruby support agree with, and it is the one
  embedded here. The one with four rules (the file under its own name) has the same
  first four patterns and checks; it differs in the rule table and in the marker
  pattern.

  Each pattern is the source's regular-expression literal written in the constructors
  above; \<open>ignoreCase\<close> is the literal's \<^verbatim>\<open>i\<close> flag.
\<close>

definition OBVIOUS_VERBS :: regex where
  "OBVIOUS_VERBS =
     \<lparr>source = seqs [Bol, alts [L ''//'', L ''#'', seqs [L ''/*'', optc ''*'']],
     Rep Space 0 None, alts [L ''initialize'', L ''create'', seqs [L ''set'',
     Rep Space 0 (Some 1), L ''up''], L ''handle'', L ''process'', seqs [L ''check'',
     Cls Space, alts [L ''if'', L ''whether'']], L ''validate'', L ''update'', L ''return'',
     alts [L ''get'', L ''gets'', L ''get the''], L ''store'', L ''add'', L ''increment'',
     L ''decrement'', L ''define'', L ''declare'', L ''assign'', L ''call'', L ''invoke'',
     seqs [L ''loop'', Cls Space, alts [L ''through'', L ''over'']], seqs [L ''iterate'',
     Cls Space, alts [L ''through'', L ''over'']], L ''import'', L ''export'', L ''render'',
     L ''fetch'', L ''send'', L ''remove'', L ''delete'', L ''destroy'', L ''free'',
     L ''reset'', L ''clear'', L ''toggle'', L ''convert'', L ''parse'', L ''format'',
     L ''calculate'', L ''compute'', L ''extract'', L ''merge'', L ''sort'', L ''filter'',
     L ''map'', L ''transform'', L ''append'', L ''prepend'', L ''push'', L ''pop'',
     L ''insert'', L ''set the'', seqs [L ''set'', Cls Space, Rep WordCh 1 None, Cls Space,
     L ''to''], L ''allocate'', L ''malloc'', L ''realloc''], Cls Space],
     ignoreCase = True\<rparr>"

definition NARRATOR_PATTERN :: regex where
  "NARRATOR_PATTERN =
     \<lparr>source = seqs [Bol, alts [L ''//'', L ''#'', seqs [L ''/*'', optc ''*'']],
     Rep Space 0 None, L ''this'', Rep Space 1 None, alts [L ''function'', L ''method'',
     L ''class'', L ''component'', L ''hook'', L ''module'', L ''handler'', L ''helper'',
     L ''utility'', L ''service'', L ''middleware'', L ''guard'', L ''interceptor'',
     L ''decorator'', L ''factory'', L ''provider'', L ''controller'', L ''resolver'',
     L ''validator'', L ''pipe'', L ''filter'', L ''struct'', L ''enum'', L ''trait'',
     L ''impl'', L ''macro'', L ''typedef'', L ''interface''], Rep Space 1 None,
     alts [seqs [L ''is'', Rep Space 1 None, L ''responsible'', Rep Space 1 None, L ''for''],
     seqs [L ''is'', Rep Space 1 None, L ''used'', Rep Space 1 None, L ''to''], L ''will'',
     L ''handles'', L ''creates'', L ''initializes'', seqs [L ''sets'', Rep Space 1 None,
     L ''up''], L ''processes'', L ''validates'', L ''returns'', L ''manages'', L ''provides'',
     L ''defines'', L ''takes'', L ''accepts'', L ''receives'', L ''implements'',
     L ''extends'', L ''overrides'', L ''wraps'', L ''delegates'', L ''dispatches'',
     L ''emits'', L ''triggers'', L ''invokes'', L ''calls'', L ''renders'', L ''fetches'',
     L ''sends'', L ''removes'', L ''deletes'', L ''frees'', L ''updates'', L ''checks'',
     L ''ensures'', L ''converts'', L ''parses'', L ''formats'', L ''calculates'',
     L ''computes'', L ''extracts'', L ''merges'', L ''sorts'', L ''filters'', L ''maps'',
     L ''transforms'']], ignoreCase = True\<rparr>"

definition STEP_PATTERN :: regex where
  "STEP_PATTERN =
     \<lparr>source = seqs [Bol, alts [L ''//'', L ''#'', seqs [L ''/*'', optc ''*'']],
     Rep Space 0 None, L ''step'', Rep Space 1 None, Cls Digit], ignoreCase = True\<rparr>"

definition PLACEHOLDER_PATTERN :: regex where
  "PLACEHOLDER_PATTERN =
     \<lparr>source = seqs [Bol, alts [L ''//'', L ''#'', seqs [L ''/*'', optc ''*'']],
     Rep Space 0 None, alts [seqs [alts [L ''...'', Lit ([8230])], Rep Space 0 None,
     alts [L ''rest of'', L ''more'', L ''remaining'', L ''implementation'', L ''logic'',
     L ''code'', L ''here'', L ''functionality'', L ''similarly'', L ''and so on'', L ''etc'',
     L ''as above'']], seqs [alts [L ''omitted'', L ''truncated''], Rep Space 1 None,
     L ''for'', Rep Space 1 None, L ''brevity''], L ''implementation details omitted'',
     seqs [L ''repeat '', alts [L ''for each'', L ''as needed'']], seqs [L ''handle '',
     alts [L ''other'', L ''remaining''], L '' cases similarly''],
     L ''similar for other cases'']], ignoreCase = True\<rparr>"

definition APOLOGETIC_PATTERN :: regex where
  "APOLOGETIC_PATTERN =
     \<lparr>source = seqs [Bol, alts [L ''//'', L ''#'', seqs [L ''/*'', optc ''*'']],
     Rep Space 0 None, alts [seqs [L ''sorry'', optc '','', L '' this is a '',
     opt (L ''quick ''), L ''hack''], seqs [alts [L ''quick'', L ''ugly'', L ''dirty'',
     L ''nasty''], L '' hack''], seqs [alts [L ''quick'', L ''dirty'', L ''naive''],
     L '' solution''], L ''not the best way but works'', L ''I know this is bad'',
     seqs [alts [L ''temporary'', L ''temp''], L '' '', alts [L ''fix'', L ''workaround'',
     L ''solution'', L ''implementation'', L ''code'']], seqs [alts [L ''fix'', L ''refactor'',
     L ''implement'', L ''do'', L ''clean up''], L '' '', opt (L ''this ''), L ''later''],
     seqs [alts [L ''good'', L ''fine'', L ''okay'', L ''ok'', L ''simple'', L ''works'',
     L ''good enough''], L '' for now''], seqs [L ''simplified '', alts [L ''version'',
     L ''implementation'', L ''logic'']], seqs [alts [L ''basic'', L ''minimal'', L ''naive''],
     L '' approach''], L ''just a placeholder'']], ignoreCase = True\<rparr>"

definition AI_SPECIFIC_PATTERN :: regex where
  "AI_SPECIFIC_PATTERN =
     \<lparr>source = seqs [Bol, alts [L ''//'', L ''#'', seqs [L ''/*'', optc ''*'']],
     Rep Space 0 None, alts [seqs [L ''As an AI'', optc '','', L '' I cannot''],
     seqs [Lit (str ''I'' @ [39] @ str ''ll leave this for you to ''), alts [L ''implement'',
     L ''complete'', L ''finish'']],
     Lit (str ''You'' @ [39] @ str ''ll need to add your own''),
     seqs [L ''Replace this with your '', alts [L ''actual'', L ''real'', L ''own''],
     L '' implementation''], seqs [L ''Add your '', alts [L ''code'', L ''logic''],
     L '' here''], seqs [L ''Insert your '', alts [L ''logic'', L ''code'', L ''handling''],
     L '' here''], seqs [L ''Customize '', alts [L ''as needed'',
     L ''according to your needs'']], seqs [L ''Modify '', alts [L ''according to'',
     L ''based on''], L '' your needs''], seqs [L ''This is a '', alts [L ''simplified'',
     L ''basic'', L ''example''], L '' '', alts [L ''example'', L ''version'',
     L ''implementation'']], seqs [L ''In a real application'', optc '','', L '' you '',
     alts [L ''would'', L ''should'']], seqs [L ''For production'', optc '','', L '' '',
     alts [L ''consider'', L ''make sure to'']], seqs [L ''In practice'', optc '','',
     L '' you '', alts [L ''should'', L ''might want to'']],
     L ''This is just a starting point'']], ignoreCase = True\<rparr>"

definition KEEPER_PATTERN :: regex where
  "KEEPER_PATTERN =
     \<lparr>source = alts [seqs [WordB, L ''TODO'', WordB], seqs [WordB, L ''FIXME'', WordB],
     seqs [WordB, L ''HACK'', WordB], seqs [WordB, L ''NOTE'', WordB], seqs [WordB,
     L ''SAFETY'', WordB], seqs [WordB, L ''WARN'', WordB], seqs [WordB, L ''BUG'', WordB],
     seqs [WordB, L ''XXX'', WordB], seqs [WordB, L ''PERF'', WordB], seqs [WordB,
     L ''IMPORTANT'', WordB], seqs [WordB, L ''LICENSE'', WordB], seqs [WordB, L ''COPYRIGHT'',
     WordB]], ignoreCase = False\<rparr>"

text \<open>
  The revision with four comment rules has the marker pattern without word
  boundaries and with the \<^verbatim>\<open>i\<close> flag
  (\<^verbatim>\<open>src/rules/comments.ts\<close>, line 20).
\<close>

definition KEEPER_PATTERN_legacy :: regex where
  "KEEPER_PATTERN_legacy =
     \<lparr>source = alts [L ''TODO'', L ''FIXME'', L ''HACK'', L ''NOTE'', L ''SAFETY'',
     L ''WARN'', L ''BUG'', L ''XXX'', L ''PERF'', L ''IMPORTANT'', L ''LICENSE'',
     L ''COPYRIGHT''], ignoreCase = True\<rparr>"

definition DIVIDER_0 :: regex where
  "DIVIDER_0 =
     \<lparr>source = seqs [Bol, alts [L ''//'', L ''#''], Rep Space 0 None,
     Rep (OneOf (str ''-=~#*'')) 3 None], ignoreCase = False\<rparr>"

definition DIVIDER_1 :: regex where
  "DIVIDER_1 =
     \<lparr>source = seqs [Bol, alts [L ''//'', L ''#''], Rep Space 0 None,
     Rep (OneOf (str ''#'')) 1 (Some 3), Cls Space], ignoreCase = True\<rparr>"

definition DIVIDER_2 :: regex where
  "DIVIDER_2 =
     \<lparr>source = seqs [Bol, alts [L ''//'', L ''#''], Rep Space 0 None,
     Rep (OneOf (str ''-'')) 2 None, Rep Space 0 None, alts [seqs [L ''helper'', optc ''s''],
     seqs [L ''util'', optc ''s''], seqs [L ''type'', optc ''s''], seqs [L ''interface'',
     optc ''s''], seqs [L ''constant'', optc ''s''], seqs [L ''export'', optc ''s''],
     seqs [L ''import'', optc ''s''], seqs [L ''method'', optc ''s''], seqs [L ''function'',
     optc ''s''], seqs [L ''handler'', optc ''s''], seqs [L ''hook'', optc ''s''], L ''state'',
     seqs [L ''prop'', optc ''s''], seqs [L ''style'', optc ''s''], L ''config'', L ''setup'',
     L ''init'', L ''main'', L ''private'', L ''public'', L ''api'', seqs [L ''route'',
     optc ''s''], L ''middleware'', L ''validation'', L ''rendering'', L ''lifecycle'',
     seqs [L ''event'', optc ''s''], seqs [L ''callback'', optc ''s''], seqs [L ''mutation'',
     optc ''s''], seqs [L ''action'', optc ''s''], seqs [L ''getter'', optc ''s''],
     seqs [L ''selector'', optc ''s''], seqs [L ''reducer'', optc ''s''], seqs [L ''effect'',
     optc ''s''], seqs [L ''subscription'', optc ''s''], L ''impl'', seqs [L ''trait'',
     optc ''s''], seqs [L ''struct'', optc ''s''], seqs [L ''enum'', optc ''s''],
     seqs [L ''test'', optc ''s''], seqs [L ''mod'', optc ''s''], seqs [L ''model'',
     optc ''s''], seqs [L ''macro'', optc ''s'']], Rep Space 0 None,
     Rep (OneOf (str ''-'')) 0 None], ignoreCase = True\<rparr>"

definition DIVIDER_PATTERNS :: "regex list" where
  "DIVIDER_PATTERNS = [DIVIDER_0, DIVIDER_1, DIVIDER_2]"

section \<open>Syntax trees\<close>

text \<open>
  The parser and its pattern matcher are an external library. The program reads from
  a node its kind, whether it is named, its source text, the start of its range, its
  children and the child in a given field, and it asks the library for the nodes of a
  subtree that the pattern \<^verbatim>\<open>console.log($$$ARGS)\<close> matches. These are the
  components of \<open>node\<close>; \<open>matchesLogPattern\<close> is the library's answer to
  whether the pattern matches the node, which is decided by the library alone.
  \<open>scanSource\<close> below takes the root that \<^verbatim>\<open>parse(lang.lang, source).root()\<close>
  returns.
\<close>

datatype node = Node (kind: string) (isNamed: bool) (fieldName: "string option")
  (startLine: nat) (startColumn: nat) (nodeText: "cu list") (matchesLogPattern: bool)
  (children: "node list")

definition field :: "node \<Rightarrow> string \<Rightarrow> node option" where
  "field n name = find (\<lambda>c. fieldName c = Some name) (children n)"

text \<open>
  \<^verbatim>\<open>findAll\<close> visits the node and its descendants in pre-order, children from left
  to right, and returns the nodes that match. A rule \<^verbatim>\<open>{ kind }\<close> names a node
  type of the grammar, so it matches the named nodes of that kind and no anonymous
  token.
\<close>

fun dfs :: "node \<Rightarrow> node list" where
  "dfs (Node k nm f l c t p cs) = Node k nm f l c t p cs # concat (map dfs cs)"

definition findAllKind :: "node \<Rightarrow> string \<Rightarrow> node list" where
  "findAllKind root k = filter (\<lambda>n. kind n = k \<and> isNamed n) (dfs root)"

text \<open>
  \<^verbatim>\<open>node.findAll("console.log($$$ARGS)")\<close>: the nodes of the subtree that the
  pattern matches.
\<close>

definition findAllConsoleLog :: "node \<Rightarrow> node list" where
  "findAllConsoleLog n = filter matchesLogPattern (dfs n)"

section \<open>Rules\<close>

text \<open>
  A \<^verbatim>\<open>Rule\<close> is a stateless object with an identifier, a message, a note, an
  optional list of languages and a \<^verbatim>\<open>check\<close> method that returns the rule itself
  or \<^verbatim>\<open>null\<close>. The rule objects of the program are the constructors of \<open>Rule\<close>;
  their properties are the functions \<open>rule_id\<close>, \<open>rule_message\<close>, \<open>rule_note\<close>
  and \<open>rule_languages\<close>. The structural rules are those of
  \<^verbatim>\<open>src/rules/error-handling.ts\<close>, with the rule for Ruby that the bundled program
  has (\<^verbatim>\<open>unnamed/part_001\<close>, lines 447 to 471) and for which \<^verbatim>\<open>src/scanner.ts\<close>
  lists the node kind.
\<close>

datatype Rule = obviousComment | narratorComment | stepComment | sectionDivider
  | placeholderComment | apologeticComment | aiSpecificComment
  | emptyCatchTS | emptyCatchJava | bareExceptPython | passInExceptPython
  | consoleLogInCatchTS | emptyRescueRuby

fun rule_id :: "Rule \<Rightarrow> string" where
  "rule_id obviousComment = ''obvious-comment''"
| "rule_id narratorComment = ''narrator-comment''"
| "rule_id stepComment = ''step-comment''"
| "rule_id sectionDivider = ''section-divider''"
| "rule_id placeholderComment = ''placeholder-comment''"
| "rule_id apologeticComment = ''apologetic-comment''"
| "rule_id aiSpecificComment = ''ai-generated-comment''"
| "rule_id emptyCatchTS = ''empty-error-handler''"
| "rule_id emptyCatchJava = ''empty-error-handler''"
| "rule_id bareExceptPython = ''empty-error-handler''"
| "rule_id passInExceptPython = ''silent-exception''"
| "rule_id consoleLogInCatchTS = ''log-in-error-handler''"
| "rule_id emptyRescueRuby = ''empty-error-handler''"

fun rule_message :: "Rule \<Rightarrow> cu list" where
  "rule_message obviousComment =
     str ''Obvious comment '' @ [8212] @ str '' remove it, the code should speak for itself''"
| "rule_message narratorComment =
     [34] @ str ''This function...'' @ [34] @ str '' comment '' @ [8212] @
       str '' let the function name and signature tell the story''"
| "rule_message stepComment =
     [34] @ str ''Step N:'' @ [34] @ str '' comment '' @ [8212] @
       str '' the function is doing too much''"
| "rule_message sectionDivider =
     str ''Section divider comment '' @ [8212] @ str '' extract into separate modules instead''"
| "rule_message placeholderComment =
     str ''Placeholder comment '' @ [8212] @ str '' this code is incomplete''"
| "rule_message apologeticComment =
     str ''Apologetic comment '' @ [8212] @ str '' fix the code instead of apologizing for it''"
| "rule_message aiSpecificComment =
     str ''AI-generated placeholder '' @ [8212] @
       str '' the AI left a note instead of writing the code''"
| "rule_message emptyCatchTS =
     str ''Empty catch block silently swallows errors''"
| "rule_message emptyCatchJava =
     str ''Empty catch block silently swallows errors''"
| "rule_message bareExceptPython =
     str ''Bare except catches everything including KeyboardInterrupt and '' @
       str ''SystemExit''"
| "rule_message passInExceptPython =
     str ''Silent exception swallowing '' @ [8212] @ str '' at minimum log the error''"
| "rule_message consoleLogInCatchTS =
     str ''console.log in catch '' @ [8212] @ str '' use console.error or a proper logger''"
| "rule_message emptyRescueRuby =
     str ''Empty rescue block silently swallows errors''"

fun rule_note :: "Rule \<Rightarrow> cu list option" where
  "rule_note obviousComment =
     Some (str ''Comments should explain WHY or document non-obvious constraints, not '' @
       str ''restate WHAT. If the code isn'' @ [39] @
       str ''t clear, rename variables or extract a well-named function.'')"
| "rule_note narratorComment =
     Some (str ''A well-named function doesn'' @ [39] @
       str ''t need a preamble. If behavior is non-obvious, explain WHY, not WHAT.'')"
| "rule_note stepComment =
     Some (str ''Numbered step comments suggest the function should be split. Extract '' @
       str ''each step into its own well-named function.'')"
| "rule_note sectionDivider =
     Some (str ''If your file needs section banners, it'' @ [39] @
       str ''s probably too long. Split into separate files or modules.'')"
| "rule_note placeholderComment =
     Some (str ''Comments like '' @ [34] @ str ''... rest of the code'' @ [34] @ str '' or '' @
       [34] @ str ''omitted for brevity'' @ [34] @
       str '' mean the implementation was never finished.'')"
| "rule_note apologeticComment =
     Some (str ''Comments admitting '' @ [34] @ str ''this is a hack'' @ [34] @ str '' or '' @
       [34] @ str ''good enough for now'' @ [34] @
       str '' are a sign the code needs actual improvement, not an apology.'')"
| "rule_note aiSpecificComment =
     Some (str ''The AI assistant admitted it didn'' @ [39] @
       str ''t finish the job. Replace the comment with an actual implementation.'')"
| "rule_note emptyCatchTS =
     Some (str ''At minimum, log the error or add a comment explaining why it'' @ [39] @
       str ''s safe to ignore.'')"
| "rule_note emptyCatchJava =
     Some (str ''At minimum, log the error or add a comment explaining why it'' @ [39] @
       str ''s safe to ignore.'')"
| "rule_note bareExceptPython =
     Some (str ''Use '' @ [96] @ str ''except Exception:'' @ [96] @
       str '' to avoid catching system-level exceptions.'')"
| "rule_note passInExceptPython =
     Some (str ''AI loves '' @ [96] @ str ''except Exception: pass'' @ [96] @
       str '' to make code '' @ [39] @ str ''robust'' @ [39] @ str ''. This hides bugs.'')"
| "rule_note consoleLogInCatchTS =
     Some (str ''AI defaults to console.log for everything, even error handling.'')"
| "rule_note emptyRescueRuby =
     Some (str ''At minimum, log the error or add a comment explaining why it'' @ [39] @
       str ''s safe to ignore.'')"

fun rule_languages :: "Rule \<Rightarrow> string list option" where
  "rule_languages obviousComment = None"
| "rule_languages narratorComment = None"
| "rule_languages stepComment = None"
| "rule_languages sectionDivider = None"
| "rule_languages placeholderComment = None"
| "rule_languages apologeticComment = None"
| "rule_languages aiSpecificComment = None"
| "rule_languages emptyCatchTS = Some [''TypeScript'', ''JavaScript'']"
| "rule_languages emptyCatchJava = Some [''java'']"
| "rule_languages bareExceptPython = Some [''python'']"
| "rule_languages passInExceptPython = Some [''python'']"
| "rule_languages consoleLogInCatchTS = Some [''TypeScript'', ''JavaScript'']"
| "rule_languages emptyRescueRuby = Some [''ruby'']"

definition isComment :: "node \<Rightarrow> LanguageConfig \<Rightarrow> bool" where
  "isComment n l \<longleftrightarrow> kind n \<in> set (commentKinds l)"

definition isToolDirective :: "cu list \<Rightarrow> LanguageConfig \<Rightarrow> bool" where
  "isToolDirective t l = test (toolDirectives l) t"

definition shouldKeep :: "cu list \<Rightarrow> LanguageConfig \<Rightarrow> bool" where
  "shouldKeep t l \<longleftrightarrow> test KEEPER_PATTERN t \<or> isToolDirective t l"

definition commentText :: "node \<Rightarrow> cu list" where
  "commentText n = trim (nodeText n)"

fun check :: "Rule \<Rightarrow> node \<Rightarrow> LanguageConfig \<Rightarrow> Rule option" where
  "check obviousComment n l =
     (let t = commentText n in
      if \<not> isComment n l then None
      else if shouldKeep t l then None
      else if \<not> test OBVIOUS_VERBS t then None
      else Some obviousComment)"
| "check narratorComment n l =
     (let t = commentText n in
      if \<not> isComment n l then None
      else if shouldKeep t l then None
      else if \<not> test NARRATOR_PATTERN t then None
      else Some narratorComment)"
| "check stepComment n l =
     (let t = commentText n in
      if \<not> isComment n l then None
      else if shouldKeep t l then None
      else if \<not> test STEP_PATTERN t then None
      else Some stepComment)"
| "check sectionDivider n l =
     (let t = commentText n in
      if \<not> isComment n l then None
      else if shouldKeep t l then None
      else if \<not> list_ex (\<lambda>p. test p t) DIVIDER_PATTERNS then None
      else Some sectionDivider)"
| "check placeholderComment n l =
     (let t = commentText n in
      if \<not> isComment n l then None
      else if shouldKeep t l then None
      else if \<not> test PLACEHOLDER_PATTERN t then None
      else Some placeholderComment)"
| "check apologeticComment n l =
     (let t = commentText n in
      if \<not> isComment n l then None
      else if shouldKeep t l then None
      else if \<not> test APOLOGETIC_PATTERN t then None
      else Some apologeticComment)"
| "check aiSpecificComment n l =
     (let t = commentText n in
      if \<not> isComment n l then None
      else if shouldKeep t l then None
      else if \<not> test AI_SPECIFIC_PATTERN t then None
      else Some aiSpecificComment)"
| "check emptyCatchTS n l =
     (if kind n \<noteq> ''catch_clause'' then None
      else case field n ''body'' of
        None \<Rightarrow> None
      | Some body \<Rightarrow>
          if length (filter isNamed (children body)) = 0 then Some emptyCatchTS else None)"
| "check emptyCatchJava n l =
     (if kind n \<noteq> ''catch_clause'' then None
      else case field n ''body'' of
        None \<Rightarrow> None
      | Some body \<Rightarrow>
          if length (filter isNamed (children body)) = 0 then Some emptyCatchJava else None)"
| "check bareExceptPython n l =
     (if kind n \<noteq> ''except_clause'' then None
      else let hasType = list_ex (\<lambda>c. kind c = ''identifier'' \<or> kind c = ''as_pattern'')
                           (children n)
           in if \<not> hasType then Some bareExceptPython else None)"
| "check passInExceptPython n l =
     (if kind n \<noteq> ''except_clause'' then None
      else case find (\<lambda>c. kind c = ''block'') (children n) of
        None \<Rightarrow> None
      | Some body \<Rightarrow>
          let stmts = filter isNamed (children body)
          in if length stmts = 1 \<and> kind (stmts ! 0) = ''pass_statement''
             then Some passInExceptPython else None)"
| "check consoleLogInCatchTS n l =
     (if kind n \<noteq> ''catch_clause'' then None
      else let logCalls = findAllConsoleLog n
           in if length logCalls > 0 then Some consoleLogInCatchTS else None)"
| "check emptyRescueRuby n l =
     (if kind n \<noteq> ''rescue'' then None
      else case find (\<lambda>c. kind c = ''then'') (children n) of
        None \<Rightarrow> Some emptyRescueRuby
      | Some thn \<Rightarrow>
          if length (filter isNamed (children thn)) = 0 then Some emptyRescueRuby else None)"

definition commentRules :: "Rule list" where
  "commentRules = [obviousComment, narratorComment, stepComment, sectionDivider,
     placeholderComment, apologeticComment, aiSpecificComment]"

definition errorHandlingRules :: "Rule list" where
  "errorHandlingRules = [emptyCatchTS, emptyCatchJava, bareExceptPython, passInExceptPython,
     consoleLogInCatchTS, emptyRescueRuby]"

record RuleSet =
  comment :: "Rule list"
  ast :: "Rule list"

definition rulesForLanguage :: "LanguageConfig \<Rightarrow> RuleSet" where
  "rulesForLanguage l =
     \<lparr>comment = commentRules,
      ast = filter (\<lambda>r. case rule_languages r of None \<Rightarrow> True | Some ls \<Rightarrow> lang l \<in> set ls)
              errorHandlingRules\<rparr>"

section \<open>The scanner\<close>

definition AST_RULE_KINDS :: "(string \<times> string list) list" where
  "AST_RULE_KINDS =
     [(''TypeScript'', [''catch_clause'']), (''JavaScript'', [''catch_clause'']),
      (''java'', [''catch_clause'']), (''python'', [''except_clause'']),
      (''ruby'', [''rescue''])]"

text \<open>
  The fields of \<^verbatim>\<open>Diagnostic\<close> are \<^verbatim>\<open>rule\<close>, \<^verbatim>\<open>message\<close>, \<^verbatim>\<open>note\<close>,
  \<^verbatim>\<open>file\<close>, \<^verbatim>\<open>line\<close>, \<^verbatim>\<open>column\<close> and \<^verbatim>\<open>text\<close>; they carry the prefix
  \<open>d_\<close> here. The file name is a string of the host language.
\<close>

record Diagnostic =
  d_rule :: string
  d_message :: "cu list"
  d_note :: "cu list option"
  d_file :: "cu list"
  d_line :: nat
  d_column :: nat
  d_text :: "cu list"

text \<open>
  \<^verbatim>\<open>node.text().split("\n")[0]\<close> is the text up to the first line feed.
\<close>

definition makeDiagnostic :: "Rule \<Rightarrow> node \<Rightarrow> cu list \<Rightarrow> Diagnostic" where
  "makeDiagnostic r n filename =
     \<lparr>d_rule = rule_id r, d_message = rule_message r, d_note = rule_note r,
      d_file = filename, d_line = startLine n + 1, d_column = startColumn n + 1,
      d_text = takeWhile (\<lambda>u. u \<noteq> 10) (nodeText n)\<rparr>"

text \<open>
  The three nested loops of \<^verbatim>\<open>scanSource\<close>, innermost first. Each threads the array
  \<^verbatim>\<open>diagnostics\<close>, to which a match is pushed.
\<close>

definition checkRules ::
  "Rule list \<Rightarrow> node \<Rightarrow> LanguageConfig \<Rightarrow> cu list \<Rightarrow> Diagnostic list \<Rightarrow> Diagnostic list" where
  "checkRules rules n l filename diagnostics =
     foldl (\<lambda>ds r. case check r n l of
                     Some m \<Rightarrow> ds @ [makeDiagnostic m n filename]
                   | None \<Rightarrow> ds)
       diagnostics rules"

definition scanNodes ::
  "Rule list \<Rightarrow> node list \<Rightarrow> LanguageConfig \<Rightarrow> cu list \<Rightarrow> Diagnostic list \<Rightarrow> Diagnostic list" where
  "scanNodes rules nodes l filename diagnostics =
     foldl (\<lambda>ds n. checkRules rules n l filename ds) diagnostics nodes"

definition scanKinds ::
  "Rule list \<Rightarrow> string list \<Rightarrow> node \<Rightarrow> LanguageConfig \<Rightarrow> cu list \<Rightarrow> Diagnostic list
     \<Rightarrow> Diagnostic list" where
  "scanKinds rules kinds root l filename diagnostics =
     foldl (\<lambda>ds k. scanNodes rules (findAllKind root k) l filename ds) diagnostics kinds"

definition scanSource :: "node \<Rightarrow> LanguageConfig \<Rightarrow> cu list \<Rightarrow> Diagnostic list" where
  "scanSource root l filename =
     (let rs = rulesForLanguage l;
          diagnostics = scanKinds (comment rs) (commentKinds l) root l filename []
      in if length (ast rs) > 0
         then let kinds = (case map_of AST_RULE_KINDS (lang l) of Some ks \<Rightarrow> ks | None \<Rightarrow> [])
              in scanKinds (ast rs) kinds root l filename diagnostics
         else diagnostics)"

section \<open>Notions used in the statements\<close>

text \<open>
  What the loops of \<open>scanSource\<close> add for one node, for a list of nodes, and for the
  nodes of a list of kinds, written as list expressions; the nodes that a pass over a
  list of kinds visits, in the order of the visit; the node kinds of the second pass;
  and whether a rule is eligible for a language.
\<close>

definition nodeDiagnostics :: "Rule list \<Rightarrow> node \<Rightarrow> LanguageConfig \<Rightarrow> cu list \<Rightarrow> Diagnostic list" where
  "nodeDiagnostics rules n l filename =
     map (\<lambda>r. makeDiagnostic r n filename) (filter (\<lambda>r. check r n l = Some r) rules)"

definition nodesDiagnostics ::
  "Rule list \<Rightarrow> node list \<Rightarrow> LanguageConfig \<Rightarrow> cu list \<Rightarrow> Diagnostic list" where
  "nodesDiagnostics rules nodes l filename =
     concat (map (\<lambda>n. nodeDiagnostics rules n l filename) nodes)"

definition kindDiagnostics ::
  "Rule list \<Rightarrow> string list \<Rightarrow> node \<Rightarrow> LanguageConfig \<Rightarrow> cu list \<Rightarrow> Diagnostic list" where
  "kindDiagnostics rules kinds root l filename =
     concat (map (\<lambda>k. concat (map (\<lambda>n. nodeDiagnostics rules n l filename)
                                  (findAllKind root k))) kinds)"

definition visited :: "string list \<Rightarrow> node \<Rightarrow> node list" where
  "visited kinds root = concat (map (findAllKind root) kinds)"

definition astKinds :: "LanguageConfig \<Rightarrow> string list" where
  "astKinds l = (case map_of AST_RULE_KINDS (lang l) of Some ks \<Rightarrow> ks | None \<Rightarrow> [])"

definition applicable :: "LanguageConfig \<Rightarrow> Rule \<Rightarrow> bool" where
  "applicable l r \<longleftrightarrow> (case rule_languages r of None \<Rightarrow> True | Some ls \<Rightarrow> lang l \<in> set ls)"

text \<open>
  The reserved marker tokens, and a text containing one of them between word
  boundaries: the code unit before the token, if any, and the one after it, if any,
  are not word characters.
\<close>

definition markerTokens :: "string list" where
  "markerTokens = [''TODO'', ''FIXME'', ''HACK'', ''NOTE'', ''SAFETY'', ''WARN'', ''BUG'', ''XXX'',
     ''PERF'', ''IMPORTANT'', ''LICENSE'', ''COPYRIGHT'']"

definition containsMarker :: "cu list \<Rightarrow> bool" where
  "containsMarker t \<longleftrightarrow>
     (\<exists>tok\<in>set markerTokens. \<exists>a b. t = a @ str tok @ b
        \<and> (a = [] \<or> \<not> isWord (last a)) \<and> (b = [] \<or> \<not> isWord (hd b)))"

definition keeperAlt :: "string \<Rightarrow> rx" where
  "keeperAlt tok = seqs [WordB, L tok, WordB]"

text \<open>
  Analysis of a pattern: \<open>adv\<close> is the code unit last consumed after reading a
  word; \<open>nullable\<close> holds of a pattern that can match without consuming,
  \<open>firstc\<close> of a code unit that a match can consume first, and \<open>firstSpace\<close> of a
  pattern whose match can begin with white space.
\<close>

definition adv :: "cu option \<Rightarrow> cu list \<Rightarrow> cu option" where
  "adv prev w = (if w = [] then prev else Some (last w))"

fun nullable :: "rx \<Rightarrow> bool" where
  "nullable Eps = True"
| "nullable Bol = True"
| "nullable WordB = True"
| "nullable (Lit l) = (l = [])"
| "nullable (Cls c) = False"
| "nullable (Rep c lo hi) = (lo = 0)"
| "nullable (Seq r1 r2) = (nullable r1 \<and> nullable r2)"
| "nullable (Alt r1 r2) = (nullable r1 \<or> nullable r2)"

fun firstc :: "bool \<Rightarrow> rx \<Rightarrow> cu \<Rightarrow> bool" where
  "firstc ci Eps u = False"
| "firstc ci Bol u = False"
| "firstc ci WordB u = False"
| "firstc ci (Lit l) u = (case l of [] \<Rightarrow> False | c # _ \<Rightarrow> eqc ci c u)"
| "firstc ci (Cls c) u = inCls ci c u"
| "firstc ci (Rep c lo hi) u = inCls ci c u"
| "firstc ci (Seq r1 r2) u = (firstc ci r1 u \<or> (nullable r1 \<and> firstc ci r2 u))"
| "firstc ci (Alt r1 r2) u = (firstc ci r1 u \<or> firstc ci r2 u)"

fun firstSpace :: "rx \<Rightarrow> bool" where
  "firstSpace Eps = False"
| "firstSpace Bol = False"
| "firstSpace WordB = False"
| "firstSpace (Lit l) = (case l of [] \<Rightarrow> False | c # _ \<Rightarrow> isSpace c)"
| "firstSpace (Cls c) = (case c of Space \<Rightarrow> True | OneOf cs \<Rightarrow> list_ex isSpace cs | _ \<Rightarrow> False)"
| "firstSpace (Rep c lo hi) = (case c of Space \<Rightarrow> True | OneOf cs \<Rightarrow> list_ex isSpace cs | _ \<Rightarrow> False)"
| "firstSpace (Seq r1 r2) = (firstSpace r1 \<or> (nullable r1 \<and> firstSpace r2))"
| "firstSpace (Alt r1 r2) = (firstSpace r1 \<or> firstSpace r2)"

text \<open>
  A comment text that is empty, or a comment delimiter followed by white space only,
  with the closing delimiter for a block comment. The delimiters are the ones the
  classifier patterns accept. \<open>openers6\<close> and \<open>openers2\<close> are the two
  alternations of delimiters with which the patterns begin, and \<open>afterOpen\<close> is
  the part of a pattern after the delimiter and the white space that may follow it.
\<close>

definition delimOnly :: "cu list \<Rightarrow> bool" where
  "delimOnly t \<longleftrightarrow> t = [] \<or> (\<exists>ws. list_all isSpace ws \<and>
     (t = str ''//'' @ ws \<or> t = str ''#'' @ ws \<or> t = str ''/*'' @ ws \<or> t = str ''/**'' @ ws
      \<or> t = str ''/*'' @ ws @ str ''*/'' \<or> t = str ''/**'' @ ws @ str ''*/''))"

definition openers6 :: rx where
  "openers6 = alts [L ''//'', L ''#'', seqs [L ''/*'', optc ''*'']]"

definition openers2 :: rx where
  "openers2 = alts [L ''//'', L ''#'']"

definition afterOpen :: "rx \<Rightarrow> rx" where
  "afterOpen r = (case r of Seq a (Seq b (Seq c r')) \<Rightarrow> r' | _ \<Rightarrow> r)"

text \<open>
  The pattern that a comment rule tests, and the matches of a scan as pairs of a rule
  and the node it fired on, in the order in which \<open>scanSource\<close> reports them.
\<close>

fun classifierMatches :: "Rule \<Rightarrow> cu list \<Rightarrow> bool" where
  "classifierMatches obviousComment t = test OBVIOUS_VERBS t"
| "classifierMatches narratorComment t = test NARRATOR_PATTERN t"
| "classifierMatches stepComment t = test STEP_PATTERN t"
| "classifierMatches sectionDivider t = list_ex (\<lambda>p. test p t) DIVIDER_PATTERNS"
| "classifierMatches placeholderComment t = test PLACEHOLDER_PATTERN t"
| "classifierMatches apologeticComment t = test APOLOGETIC_PATTERN t"
| "classifierMatches aiSpecificComment t = test AI_SPECIFIC_PATTERN t"
| "classifierMatches _ t = False"

definition ruleMatches :: "Rule list \<Rightarrow> string list \<Rightarrow> node \<Rightarrow> LanguageConfig \<Rightarrow> (Rule \<times> node) list" where
  "ruleMatches rules kinds root l =
     [(r, n). k \<leftarrow> kinds, n \<leftarrow> findAllKind root k, r \<leftarrow> rules, check r n l = Some r]"

definition scanMatches :: "node \<Rightarrow> LanguageConfig \<Rightarrow> (Rule \<times> node) list" where
  "scanMatches root l =
     ruleMatches commentRules (commentKinds l) root l
       @ ruleMatches (filter (applicable l) errorHandlingRules) (astKinds l) root l"

text \<open>
  A node that the pattern \<^verbatim>\<open>console.log($$$ARGS)\<close> matches occurs in the subtree
  of a node: it is the node itself, or it occurs in the subtree of a child. A statement
  that calls \<^verbatim>\<open>console.error\<close>: an expression statement whose expression is a
  call of the function written \<^verbatim>\<open>console.error\<close>.
\<close>

fun containsLogCall :: "node \<Rightarrow> bool" where
  "containsLogCall (Node k nm f l c t p cs) = (p \<or> list_ex containsLogCall cs)"

definition callsConsoleError :: "node \<Rightarrow> bool" where
  "callsConsoleError s \<longleftrightarrow> kind s = ''expression_statement'' \<and>
     (case filter isNamed (children s) of
        [c] \<Rightarrow> kind c = ''call_expression'' \<and>
                 (case field c ''function'' of
                    Some f \<Rightarrow> nodeText f = str ''console.error''
                  | None \<Rightarrow> False)
      | _ \<Rightarrow> False)"

section \<open>Example trees\<close>

text \<open>
  Trees of the shape the parser produces, for the concrete scenarios: a comment, an
  anonymous token, an identifier, a call \<^verbatim>\<open>console.m(arg)\<close> (which the library's
  pattern matches when \<^verbatim>\<open>m\<close> is \<^verbatim>\<open>log\<close>), an expression statement, a TypeScript
  catch clause around given statements, a Python except clause, and whole files.
\<close>

definition commentNode :: "string \<Rightarrow> nat \<Rightarrow> nat \<Rightarrow> string \<Rightarrow> node" where
  "commentNode k line col s = Node k True None line col (str s) False []"

definition token :: "string \<Rightarrow> node" where
  "token s = Node s False None 0 0 (str s) False []"

definition program :: "node list \<Rightarrow> node" where
  "program cs = Node ''program'' True None 0 0 [] False cs"

definition identifierNode :: "string \<Rightarrow> node" where
  "identifierNode s = Node ''identifier'' True None 0 0 (str s) False []"

definition consoleCallOf :: "string \<Rightarrow> node \<Rightarrow> node" where
  "consoleCallOf m arg =
     Node ''call_expression'' True None 0 0
       (str ''console.'' @ str m @ str ''('' @ nodeText arg @ str '')'') (m = ''log'')
       [Node ''member_expression'' True (Some ''function'') 0 0 (str ''console.'' @ str m) False
          [Node ''identifier'' True (Some ''object'') 0 0 (str ''console'') False [],
           token ''.'',
           Node ''property_identifier'' True (Some ''property'') 0 0 (str m) False []],
        Node ''arguments'' True (Some ''arguments'') 0 0
          (str ''('' @ nodeText arg @ str '')'') False
          [token ''('', arg, token '')'']]"

definition statement :: "node \<Rightarrow> node" where
  "statement e = Node ''expression_statement'' True None 0 0 (nodeText e) False [e]"

definition consoleCall :: "string \<Rightarrow> node" where
  "consoleCall m = statement (consoleCallOf m (identifierNode ''e''))"

definition errorOfLog :: node where
  "errorOfLog = statement (consoleCallOf ''error'' (consoleCallOf ''log'' (identifierNode ''e'')))"

definition catchBody :: "nat \<Rightarrow> nat \<Rightarrow> node list \<Rightarrow> node" where
  "catchBody line col stmts =
     Node ''statement_block'' True (Some ''body'') line (col + 10) (str ''{'' @ [10] @ str ''}'')
       False (token ''{'' # stmts @ [token ''}''])"

definition catchClause :: "nat \<Rightarrow> nat \<Rightarrow> node list \<Rightarrow> node" where
  "catchClause line col stmts =
     Node ''catch_clause'' True (Some ''handler'') line col (str ''catch (e) {'' @ [10] @ str ''}'')
       False
       [token ''catch'', token ''('',
        Node ''identifier'' True (Some ''parameter'') line (col + 7) (str ''e'') False [],
        token '')'',
        catchBody line col stmts]"

definition tryStatement :: "node \<Rightarrow> node" where
  "tryStatement handler =
     Node ''try_statement'' True None 0 0 (str ''try { x() } catch (e) {}'') False
       [token ''try'',
        Node ''statement_block'' True (Some ''body'') 0 4 (str ''{ x() }'') False
          [token ''{'', token ''}''],
        handler]"

definition exceptBlock :: "node list \<Rightarrow> node" where
  "exceptBlock stmts = Node ''block'' True (Some ''body'') 3 4 (str ''pass'') False stmts"

definition exceptClause :: "node list \<Rightarrow> node list \<Rightarrow> node" where
  "exceptClause typ stmts =
     Node ''except_clause'' True None 2 0 (str ''except:'') False
       (token ''except'' # typ @ [token '':'', exceptBlock stmts])"

definition passStatement :: node where
  "passStatement = Node ''pass_statement'' True None 3 4 (str ''pass'') False [token ''pass'']"

definition pythonModule :: "node \<Rightarrow> node" where
  "pythonModule handler =
     Node ''module'' True None 0 0 [] False
       [Node ''try_statement'' True None 0 0 (str ''try:'') False
          [token ''try'', token '':'',
           Node ''block'' True (Some ''body'') 1 4 (str ''x()'') False [],
           handler]]"

definition orderExample :: node where
  "orderExample = program
     [tryStatement (catchClause 0 12 []),
      commentNode ''comment'' 1 0 ''// Step 1: validate'',
      commentNode ''comment'' 5 0 ''// Step 1: validate'',
      commentNode ''comment'' 9 0 ''// Step 1: validate'']"

definition positionExample :: node where
  "positionExample = program
     [tryStatement (catchClause 0 12 []), tryStatement (catchClause 7 2 [])]"

section \<open>The loops as list expressions\<close>

lemma check_self: "check r n l = Some m \<Longrightarrow> m = r"
  by (cases r) (auto simp: Let_def split: if_splits option.splits)

lemma check_cases: "check r n l = None \<or> check r n l = Some r"
  using check_self by (cases "check r n l") auto

lemma checkRules_append:
  "checkRules rules n l fn ds = ds @ nodeDiagnostics rules n l fn"
proof (induction rules arbitrary: ds)
  case Nil
  show ?case by (simp add: checkRules_def nodeDiagnostics_def)
next
  case (Cons r rs)
  have step: "checkRules (r # rs) n l fn ds =
      checkRules rs n l fn (case check r n l of Some m \<Rightarrow> ds @ [makeDiagnostic m n fn] | None \<Rightarrow> ds)"
    by (simp add: checkRules_def)
  show ?case
    using check_cases[of r n l]
    by (auto simp: step Cons.IH nodeDiagnostics_def)
qed

lemma scanNodes_append:
  "scanNodes rules nodes l fn ds = ds @ concat (map (\<lambda>n. nodeDiagnostics rules n l fn) nodes)"
proof (induction nodes arbitrary: ds)
  case Nil
  show ?case by (simp add: scanNodes_def)
next
  case (Cons n ns)
  have step: "scanNodes rules (n # ns) l fn ds = scanNodes rules ns l fn (checkRules rules n l fn ds)"
    by (simp add: scanNodes_def)
  show ?case by (simp add: step Cons.IH checkRules_append)
qed

lemma scanKinds_append:
  "scanKinds rules kinds root l fn ds = ds @ kindDiagnostics rules kinds root l fn"
proof (induction kinds arbitrary: ds)
  case Nil
  show ?case by (simp add: scanKinds_def kindDiagnostics_def)
next
  case (Cons k ks)
  have step: "scanKinds rules (k # ks) root l fn ds =
      scanKinds rules ks root l fn (scanNodes rules (findAllKind root k) l fn ds)"
    by (simp add: scanKinds_def)
  have unf: "kindDiagnostics rules (k # ks) root l fn =
      concat (map (\<lambda>n. nodeDiagnostics rules n l fn) (findAllKind root k))
        @ kindDiagnostics rules ks root l fn"
    by (simp add: kindDiagnostics_def)
  show ?case by (simp add: step Cons.IH scanNodes_append unf)
qed

lemma kindDiagnostics_no_rules: "kindDiagnostics [] kinds root l fn = []"
  by (induction kinds) (simp_all add: kindDiagnostics_def nodeDiagnostics_def)

lemma rulesForLanguage_ast: "ast (rulesForLanguage l) = filter (applicable l) errorHandlingRules"
  by (simp add: rulesForLanguage_def applicable_def[abs_def])

lemma scanSource_passes:
  "scanSource root l fn =
     kindDiagnostics commentRules (commentKinds l) root l fn
       @ kindDiagnostics (filter (applicable l) errorHandlingRules) (astKinds l) root l fn"
proof -
  have c: "comment (rulesForLanguage l) = commentRules"
    by (simp add: rulesForLanguage_def)
  show ?thesis
  proof (cases "filter (applicable l) errorHandlingRules = []")
    case True
    then show ?thesis
      by (simp add: scanSource_def Let_def c rulesForLanguage_ast scanKinds_append
          kindDiagnostics_no_rules)
  next
    case False
    then show ?thesis
      by (simp add: scanSource_def Let_def c rulesForLanguage_ast scanKinds_append astKinds_def)
  qed
qed

lemma concat_map_if: "concat (map (\<lambda>x. if P x then f x else []) xs) = concat (map f (filter P xs))"
  by (induction xs) auto

lemma concat_map_if_single:
  "concat (map (\<lambda>x. if P x then [f x] else []) xs) = map f (filter P xs)"
  by (induction xs) auto

lemma kindDiagnostics_matches:
  "kindDiagnostics rules kinds root l fn =
     map (\<lambda>(r, n). makeDiagnostic r n fn) (ruleMatches rules kinds root l)"
  by (simp add: kindDiagnostics_def ruleMatches_def nodeDiagnostics_def concat_map_if
      concat_map_if_single map_concat comp_def)

lemma scanSource_matches:
  "scanSource root l fn = map (\<lambda>(r, n). makeDiagnostic r n fn) (scanMatches root l)"
  by (simp add: scanSource_passes scanMatches_def kindDiagnostics_matches)

lemma ruleMatches_iff:
  "(r, n) \<in> set (ruleMatches rules kinds root l) \<longleftrightarrow>
     r \<in> set rules \<and> n \<in> set (dfs root) \<and> isNamed n \<and> kind n \<in> set kinds
       \<and> check r n l = Some r"
  by (auto simp: ruleMatches_def findAllKind_def)

lemma comment_check:
  "r \<in> set commentRules \<Longrightarrow>
     check r n l = (if isComment n l \<and> \<not> shouldKeep (commentText n) l
                      \<and> classifierMatches r (commentText n) then Some r else None)"
  by (auto simp: commentRules_def Let_def)

lemma comment_not_error: "r \<in> set commentRules \<Longrightarrow> r \<notin> set errorHandlingRules"
  by (auto simp: commentRules_def errorHandlingRules_def)

lemma ast_rules_for:
  "lang l = ''TypeScript'' \<Longrightarrow>
     filter (applicable l) errorHandlingRules = [emptyCatchTS, consoleLogInCatchTS]"
  "lang l = ''JavaScript'' \<Longrightarrow>
     filter (applicable l) errorHandlingRules = [emptyCatchTS, consoleLogInCatchTS]"
  "lang l = ''java'' \<Longrightarrow> filter (applicable l) errorHandlingRules = [emptyCatchJava]"
  "lang l = ''python'' \<Longrightarrow>
     filter (applicable l) errorHandlingRules = [bareExceptPython, passInExceptPython]"
  by (simp_all add: applicable_def errorHandlingRules_def)

lemma ast_kinds_for:
  "lang l = ''TypeScript'' \<Longrightarrow> astKinds l = [''catch_clause'']"
  "lang l = ''JavaScript'' \<Longrightarrow> astKinds l = [''catch_clause'']"
  "lang l = ''java'' \<Longrightarrow> astKinds l = [''catch_clause'']"
  "lang l = ''python'' \<Longrightarrow> astKinds l = [''except_clause'']"
  by (simp_all add: astKinds_def AST_RULE_KINDS_def)

lemma kindDiagnostics_visited:
  "kindDiagnostics rules kinds root l fn = nodesDiagnostics rules (visited kinds root) l fn"
  by (induction kinds) (simp_all add: kindDiagnostics_def nodesDiagnostics_def visited_def)

lemma visited_iff:
  "n \<in> set (visited kinds root) \<longleftrightarrow> n \<in> set (dfs root) \<and> isNamed n \<and> kind n \<in> set kinds"
  by (auto simp: visited_def findAllKind_def)

lemma nodesDiagnostics_append:
  "nodesDiagnostics rules (xs @ n # ys) l fn =
     nodesDiagnostics rules xs l fn @ nodeDiagnostics rules n l fn
       @ nodesDiagnostics rules ys l fn"
  by (simp add: nodesDiagnostics_def)

lemma scanSource_visited:
  "scanSource root l fn =
     nodesDiagnostics commentRules (visited (commentKinds l) root) l fn
       @ nodesDiagnostics (filter (applicable l) errorHandlingRules) (visited (astKinds l) root)
           l fn"
  by (simp add: scanSource_passes kindDiagnostics_visited)

lemma containsLogCall_iff: "containsLogCall n \<longleftrightarrow> findAllConsoleLog n \<noteq> []"
  by (induction n) (auto simp: findAllConsoleLog_def list_ex_iff filter_empty_conv)

lemma log_check:
  "check consoleLogInCatchTS n l =
     (if kind n = ''catch_clause'' \<and> containsLogCall n then Some consoleLogInCatchTS else None)"
  by (simp add: containsLogCall_iff Let_def)

section \<open>Facts about matching\<close>

lemmas rx_defs = test_def L_def optc_def opt_def str_def eqc_def canon_def isSpace_def
  isDigit_def isWord_def wordBoundary_def trim_def

lemma eqc_space: "isSpace u \<Longrightarrow> eqc ci c u \<Longrightarrow> isSpace c"
  by (auto simp: eqc_def canon_def isSpace_def split: if_splits)

lemma space_not_word: "isSpace u \<Longrightarrow> \<not> isWord u"
  by (auto simp: isSpace_def isWord_def)

lemma space_not_digit: "isSpace u \<Longrightarrow> \<not> isDigit u"
  by (auto simp: isSpace_def isDigit_def)

lemma inCls_space:
  "isSpace u \<Longrightarrow> inCls ci c u \<Longrightarrow> (case c of Space \<Rightarrow> True | OneOf cs \<Rightarrow> list_ex isSpace cs | _ \<Rightarrow> False)"
  by (cases c) (auto simp: space_not_word space_not_digit list_ex_iff dest: eqc_space)

lemma firstc_space: "isSpace u \<Longrightarrow> firstc ci r u \<Longrightarrow> firstSpace r"
  by (induction r) (auto split: list.splits dest: eqc_space inCls_space)

lemma lit_stuck:
  "s = [] \<or> \<not> firstc ci (Lit l) (hd s) \<Longrightarrow> l \<noteq> [] \<Longrightarrow> lit ci l (prev, s) = []"
  by (cases l; cases s) auto

lemma many_stuck: "s = [] \<or> \<not> P (hd s) \<Longrightarrow> many P (prev, s) = [(prev, s)]"
  by (cases s) auto

lemma stuck:
  "s = [] \<or> \<not> firstc ci r (hd s) \<Longrightarrow>
     set (ms ci r (prev, s)) \<subseteq> {(prev, s)} \<and> (\<not> nullable r \<longrightarrow> ms ci r (prev, s) = [])"
proof (induction r)
  case (Lit l)
  then show ?case by (cases "l = []") (auto simp: lit_stuck)
next
  case (Cls c)
  then show ?case by (cases s) auto
next
  case (Rep c lo hi)
  then have "many (inCls ci c) (prev, s) = [(prev, s)]"
    by (intro many_stuck) auto
  then show ?case by (cases lo; cases hi) auto
next
  case (Seq r1 r2)
  show ?case
  proof (cases "ms ci r1 (prev, s) = []")
    case True
    then show ?thesis by simp
  next
    case False
    from Seq.prems have f1: "s = [] \<or> \<not> firstc ci r1 (hd s)" by auto
    from Seq.IH(1)[OF f1] False have one: "set (ms ci r1 (prev, s)) = {(prev, s)}" and n1: "nullable r1"
      by (auto simp: subset_singleton_iff)
    from Seq.prems n1 have f2: "s = [] \<or> \<not> firstc ci r2 (hd s)" by auto
    from Seq.IH(2)[OF f2] one show ?thesis by (auto simp: n1)
  qed
next
  case (Alt r1 r2)
  then show ?case by auto
qed auto

lemma many_positions:
  "list_all P ws \<Longrightarrow> tl' = [] \<or> \<not> P (hd tl') \<Longrightarrow> q \<in> set (many P (prev, ws @ tl')) \<Longrightarrow>
     \<exists>k\<le>length ws. snd q = drop k ws @ tl'"
proof (induction ws arbitrary: prev)
  case Nil
  then show ?case by (simp add: many_stuck)
next
  case (Cons w ws)
  from Cons.prems(3) consider "q = (prev, (w # ws) @ tl')" | "q \<in> set (many P (Some w, ws @ tl'))"
    using Cons.prems(1) by auto
  then show ?case
  proof cases
    case 1
    then show ?thesis by (intro exI[of _ 0]) simp
  next
    case 2
    from Cons.IH[OF _ Cons.prems(2) 2] Cons.prems(1)
    obtain k where "k \<le> length ws" "snd q = drop k ws @ tl'" by auto
    then show ?thesis by (intro exI[of _ "Suc k"]) simp
  qed
qed

lemma inCls_Space_fun: "inCls ci Space = isSpace"
  by (rule ext) simp

lemma ws_then_stuck:
  assumes nn: "\<not> nullable r" and nsp: "\<not> firstSpace r"
    and ws: "list_all isSpace ws"
    and tl: "tl' = [] \<or> (\<not> isSpace (hd tl') \<and> \<not> firstc ci r (hd tl'))"
  shows "ms ci (Seq (Rep Space 0 None) r) (prev, ws @ tl') = []"
proof -
  have "ms ci r q = []" if q: "q \<in> set (many isSpace (prev, ws @ tl'))" for q
  proof -
    from many_positions[OF ws _ q] tl obtain k where k: "k \<le> length ws" "snd q = drop k ws @ tl'"
      by auto
    have "snd q = [] \<or> \<not> firstc ci r (hd (snd q))"
    proof (cases "drop k ws")
      case Nil
      with k tl show ?thesis by auto
    next
      case (Cons a as)
      then have "a \<in> set ws" by (metis in_set_dropD list.set_intros(1))
      with ws have "isSpace a" by (simp add: list_all_iff)
      with nsp firstc_space have "\<not> firstc ci r a" by blast
      with Cons k show ?thesis by simp
    qed
    from stuck[OF this, of "fst q"] nn show ?thesis by simp
  qed
  then show ?thesis by (simp add: inCls_Space_fun)
qed

lemma search_Bol_later: "search ci (Seq Bol r) (Some u, s) = False"
  by (induction s arbitrary: u) auto

lemma search_Bol: "search ci (Seq Bol r) (None, s) = (ms ci r (None, s) \<noteq> [])"
  by (cases s) (auto simp: search_Bol_later)

lemma adv_Cons: "adv prev (u # a) = adv (Some u) a"
  by (simp add: adv_def)

lemma lit_exact:
  "lit False l (prev, s) = (if prefix l s then [(adv prev l, drop (length l) s)] else [])"
proof (induction l arbitrary: prev s)
  case Nil
  show ?case by (simp add: adv_def)
next
  case (Cons c cs)
  show ?case
  proof (cases s)
    case Nil
    then show ?thesis by simp
  next
    case (Cons u us)
    then show ?thesis
      using Cons.IH[of "Some u" us] by (auto simp: eqc_def adv_Cons)
  qed
qed

lemma search_iff:
  "search ci r (prev, s) \<longleftrightarrow> (\<exists>a b. s = a @ b \<and> ms ci r (adv prev a, b) \<noteq> [])"
proof (induction s arbitrary: prev)
  case Nil
  show ?case by (simp add: adv_def)
next
  case (Cons u us)
  show ?case (is "?l = ?r")
  proof
    assume ?l
    then consider "ms ci r (prev, u # us) \<noteq> []" | "search ci r (Some u, us)" by auto
    then show ?r
    proof cases
      case 1
      then have "u # us = [] @ (u # us) \<and> ms ci r (adv prev [], u # us) \<noteq> []"
        by (simp add: adv_def)
      then show ?thesis by blast
    next
      case 2
      with Cons.IH[of "Some u"] obtain a b where "us = a @ b" "ms ci r (adv (Some u) a, b) \<noteq> []"
        by auto
      then have "u # us = (u # a) @ b \<and> ms ci r (adv prev (u # a), b) \<noteq> []"
        by (simp add: adv_Cons)
      then show ?thesis by blast
    qed
  next
    assume ?r
    then obtain a b where ab: "u # us = a @ b" "ms ci r (adv prev a, b) \<noteq> []" by auto
    show ?l
    proof (cases a)
      case Nil
      with ab have "ms ci r (prev, u # us) \<noteq> []" by (simp add: adv_def)
      then show ?thesis by simp
    next
      case (Cons x a')
      with ab have "us = a' @ b" "ms ci r (adv (Some u) a', b) \<noteq> []"
        by (auto simp: adv_Cons)
      with Cons.IH[of "Some u"] show ?thesis by auto
    qed
  qed
qed

lemma alts_nonempty:
  "rs \<noteq> [] \<Longrightarrow> ms ci (alts rs) p \<noteq> [] \<longleftrightarrow> (\<exists>r\<in>set rs. ms ci r p \<noteq> [])"
  by (induction rs rule: alts.induct) auto

lemma keeperAlt_match:
  assumes w: "str tok \<noteq> []" "isWord (hd (str tok))" "isWord (last (str tok))"
  shows "ms False (keeperAlt tok) (prev, b) \<noteq> [] \<longleftrightarrow>
     \<not> (case prev of None \<Rightarrow> False | Some u \<Rightarrow> isWord u)
       \<and> (\<exists>c. b = str tok @ c \<and> (c = [] \<or> \<not> isWord (hd c)))"
proof -
  have hdb: "(case str tok @ c of [] \<Rightarrow> False | u # _ \<Rightarrow> isWord u) = True" for c
    using w by (cases "str tok") auto
  have after: "wordBoundary (adv prev (str tok), c) \<longleftrightarrow> (c = [] \<or> \<not> isWord (hd c))" for c
    using w by (cases c) (auto simp: wordBoundary_def adv_def)
  show ?thesis
  proof (cases "prefix (str tok) b")
    case False
    then show ?thesis
      by (auto simp: keeperAlt_def L_def lit_exact prefix_def)
  next
    case True
    then obtain c where c: "b = str tok @ c" by (auto simp: prefix_def)
    have before: "wordBoundary (prev, b) \<longleftrightarrow> \<not> (case prev of None \<Rightarrow> False | Some u \<Rightarrow> isWord u)"
      unfolding c wordBoundary_def using hdb[of c] by simp
    show ?thesis
      using before after[of c]
      by (auto simp: keeperAlt_def L_def lit_exact c)
  qed
qed

lemma KEEPER_PATTERN_source:
  "source KEEPER_PATTERN = alts (map keeperAlt markerTokens)" "ignoreCase KEEPER_PATTERN = False"
  by (simp_all add: KEEPER_PATTERN_def markerTokens_def keeperAlt_def)

lemma markerTokens_wordlike:
  "tok \<in> set markerTokens \<Longrightarrow> str tok \<noteq> [] \<and> isWord (hd (str tok)) \<and> isWord (last (str tok))"
  by (auto simp: markerTokens_def str_def isWord_def)

lemma adv_None_word:
  "(case adv None a of None \<Rightarrow> False | Some u \<Rightarrow> isWord u) \<longleftrightarrow> a \<noteq> [] \<and> isWord (last a)"
  by (simp add: adv_def)

lemma space_not_star: "isSpace w \<Longrightarrow> \<not> eqc ci 42 w"
  using eqc_space[of w ci 42] by (auto simp: isSpace_def)

lemma many_first: "take (Suc 0) (many P (prev, s)) = [(prev, s)]"
  by (cases s) auto

lemma openers6_positions:
  assumes t: "delimOnly t" and q: "q \<in> set (ms ci openers6 (None, t))"
  shows "\<exists>ws tl. snd q = ws @ tl \<and> list_all isSpace ws \<and> (tl = [] \<or> hd tl = 42 \<or> hd tl = 47)"
    (is ?goal)
proof -
  have line: ?goal if "list_all isSpace ws" "t = str ''//'' @ ws \<or> t = str ''#'' @ ws" for ws
  proof -
    from that q have "snd q = ws @ []"
      by (auto simp: openers6_def L_def optc_def str_def eqc_def canon_def cong: if_cong)
    with that show ?thesis by blast
  qed
  have block: ?goal
    if ws: "list_all isSpace ws" and tl: "tl = [] \<or> tl = str ''*/''"
      and tt: "t = str ''/*'' @ ws @ tl" for ws tl
  proof (cases ws)
    case Nil
    with tt tl q have "snd q = [] @ tl \<or> snd q = [] @ [47]"
      by (auto simp: openers6_def L_def optc_def str_def eqc_def canon_def cong: if_cong split: if_splits)
    with tl have "snd q = [] @ snd q \<and> list_all isSpace []
        \<and> (snd q = [] \<or> hd (snd q) = 42 \<or> hd (snd q) = 47)"
      by (auto simp: str_def)
    then show ?thesis by blast
  next
    case (Cons w ws')
    with ws have "\<not> eqc ci 42 w" by (simp add: space_not_star)
    with tt q Cons have "snd q = ws @ tl"
      by (simp add: openers6_def L_def optc_def str_def eqc_def canon_def cong: if_cong)
    moreover from tl have "tl = [] \<or> hd tl = 42" by (auto simp: str_def)
    ultimately show ?thesis using ws by blast
  qed
  have doc: ?goal
    if ws: "list_all isSpace ws" and tl: "tl = [] \<or> tl = str ''*/''"
      and tt: "t = str ''/**'' @ ws @ tl" for ws tl
  proof -
    from tt q have "snd q = [] @ (42 # ws @ tl) \<or> snd q = ws @ tl"
      by (auto simp: openers6_def L_def optc_def str_def eqc_def canon_def many_first
          cong: if_cong split: if_splits)
    then show ?thesis
    proof
      assume "snd q = [] @ (42 # ws @ tl)"
      then have "snd q = [] @ (42 # ws @ tl) \<and> list_all isSpace [] \<and> hd (42 # ws @ tl) = 42"
        by simp
      then show ?thesis by blast
    next
      assume a: "snd q = ws @ tl"
      from tl have "tl = [] \<or> hd tl = 42" by (auto simp: str_def)
      with a ws show ?thesis by blast
    qed
  qed
  from t consider "t = []"
    | ws where "list_all isSpace ws" "t = str ''//'' @ ws \<or> t = str ''#'' @ ws"
    | ws where "list_all isSpace ws" "t = str ''/*'' @ ws @ [] \<or> t = str ''/*'' @ ws @ str ''*/''"
    | ws where "list_all isSpace ws" "t = str ''/**'' @ ws @ [] \<or> t = str ''/**'' @ ws @ str ''*/''"
    unfolding delimOnly_def append_Nil2 by blast
  then show ?thesis
  proof cases
    case 1
    with q show ?thesis by (simp add: openers6_def L_def optc_def str_def)
  next
    case 2
    then show ?thesis using line by blast
  next
    case 3
    then show ?thesis using block by blast
  next
    case 4
    then show ?thesis using doc by blast
  qed
qed

lemma openers2_positions:
  assumes t: "delimOnly t" and q: "q \<in> set (ms ci openers2 (None, t))"
  shows "list_all isSpace (snd q)"
proof -
  from t consider "t = []"
    | ws where "list_all isSpace ws" "t = str ''//'' @ ws \<or> t = str ''#'' @ ws"
    | r where "t = str ''/*'' @ r"
    unfolding delimOnly_def by (auto simp: str_def)
  then show ?thesis
  proof cases
    case 1
    with q show ?thesis by (simp add: openers2_def L_def str_def)
  next
    case 2
    with q show ?thesis
      by (auto simp: openers2_def L_def str_def eqc_def canon_def cong: if_cong)
  next
    case 3
    with q show ?thesis
      by (auto simp: openers2_def L_def str_def eqc_def canon_def cong: if_cong split: if_splits)
  qed
qed

lemma delimOnly_unmatched:
  assumes src: "source p = Seq Bol (Seq d (Seq (Rep Space 0 None) r))"
    and r: "\<not> nullable r" "\<not> firstSpace r"
    and d: "d = openers2 \<or> (d = openers6 \<and> \<not> firstc (ignoreCase p) r 42
              \<and> \<not> firstc (ignoreCase p) r 47)"
    and t: "delimOnly t"
  shows "\<not> test p t"
proof -
  let ?ci = "ignoreCase p"
  have "ms ?ci (Seq (Rep Space 0 None) r) q = []" if q: "q \<in> set (ms ?ci d (None, t))" for q
  proof -
    from d have "\<exists>ws tl. snd q = ws @ tl \<and> list_all isSpace ws
        \<and> (tl = [] \<or> (\<not> isSpace (hd tl) \<and> \<not> firstc ?ci r (hd tl)))"
    proof
      assume "d = openers2"
      with openers2_positions[OF t] q have "snd q = snd q @ [] \<and> list_all isSpace (snd q)"
        by simp
      then show ?thesis by blast
    next
      assume d6: "d = openers6 \<and> \<not> firstc ?ci r 42 \<and> \<not> firstc ?ci r 47"
      with openers6_positions[OF t] q obtain ws tl where
        "snd q = ws @ tl" "list_all isSpace ws" "tl = [] \<or> hd tl = 42 \<or> hd tl = 47"
        by blast
      moreover have "\<not> isSpace 42" "\<not> isSpace 47" by (simp_all add: isSpace_def)
      ultimately show ?thesis using d6 by metis
    qed
    then obtain ws tl where "snd q = ws @ tl" "list_all isSpace ws"
      "tl = [] \<or> (\<not> isSpace (hd tl) \<and> \<not> firstc ?ci r (hd tl))"
      by blast
    with ws_then_stuck[OF r this(2,3), of "fst q"] show ?thesis
      by (metis prod.collapse)
  qed
  then have "ms ?ci (Seq d (Seq (Rep Space 0 None) r)) (None, t) = []"
    by simp
  then show ?thesis
    by (simp add: test_def src search_Bol)
qed

lemmas pattern_defs = afterOpen_def openers6_def openers2_def L_def optc_def opt_def str_def
  eqc_def canon_def isSpace_def isDigit_def isWord_def

lemma OBVIOUS_VERBS_delimOnly: "delimOnly t \<Longrightarrow> \<not> test OBVIOUS_VERBS t"
  by (rule delimOnly_unmatched[where d = openers6 and r = "afterOpen (source OBVIOUS_VERBS)"])
    (simp_all add: OBVIOUS_VERBS_def pattern_defs)

lemma NARRATOR_PATTERN_delimOnly: "delimOnly t \<Longrightarrow> \<not> test NARRATOR_PATTERN t"
  by (rule delimOnly_unmatched[where d = openers6 and r = "afterOpen (source NARRATOR_PATTERN)"])
    (simp_all add: NARRATOR_PATTERN_def pattern_defs)

lemma STEP_PATTERN_delimOnly: "delimOnly t \<Longrightarrow> \<not> test STEP_PATTERN t"
  by (rule delimOnly_unmatched[where d = openers6 and r = "afterOpen (source STEP_PATTERN)"])
    (simp_all add: STEP_PATTERN_def pattern_defs)

lemma PLACEHOLDER_PATTERN_delimOnly: "delimOnly t \<Longrightarrow> \<not> test PLACEHOLDER_PATTERN t"
  by (rule delimOnly_unmatched[where d = openers6 and r = "afterOpen (source PLACEHOLDER_PATTERN)"])
    (simp_all add: PLACEHOLDER_PATTERN_def pattern_defs)

lemma APOLOGETIC_PATTERN_delimOnly: "delimOnly t \<Longrightarrow> \<not> test APOLOGETIC_PATTERN t"
  by (rule delimOnly_unmatched[where d = openers6 and r = "afterOpen (source APOLOGETIC_PATTERN)"])
    (simp_all add: APOLOGETIC_PATTERN_def pattern_defs)

lemma AI_SPECIFIC_PATTERN_delimOnly: "delimOnly t \<Longrightarrow> \<not> test AI_SPECIFIC_PATTERN t"
  by (rule delimOnly_unmatched[where d = openers6 and r = "afterOpen (source AI_SPECIFIC_PATTERN)"])
    (simp_all add: AI_SPECIFIC_PATTERN_def pattern_defs)

lemma DIVIDER_0_delimOnly: "delimOnly t \<Longrightarrow> \<not> test DIVIDER_0 t"
  by (rule delimOnly_unmatched[where d = openers2 and r = "afterOpen (source DIVIDER_0)"])
    (simp_all add: DIVIDER_0_def pattern_defs)

lemma DIVIDER_1_delimOnly: "delimOnly t \<Longrightarrow> \<not> test DIVIDER_1 t"
  by (rule delimOnly_unmatched[where d = openers2 and r = "afterOpen (source DIVIDER_1)"])
    (simp_all add: DIVIDER_1_def pattern_defs)

lemma DIVIDER_2_delimOnly: "delimOnly t \<Longrightarrow> \<not> test DIVIDER_2 t"
  by (rule delimOnly_unmatched[where d = openers2 and r = "afterOpen (source DIVIDER_2)"])
    (simp_all add: DIVIDER_2_def pattern_defs)

section \<open>Evaluation of the examples\<close>

lemma config_fields:
  "lang typescript_config = ''TypeScript''" "commentKinds typescript_config = [''comment'']"
  "lang python_config = ''python''" "commentKinds python_config = [''comment'']"
  "lang java_config = ''java''" "commentKinds java_config = [''line_comment'', ''block_comment'']"
  by (simp_all add: typescript_config_def python_config_def java_config_def)

lemma commentNode_simps:
  "kind (commentNode k line col s) = k" "startLine (commentNode k line col s) = line"
  "startColumn (commentNode k line col s) = col" "nodeText (commentNode k line col s) = str s"
  "dfs (commentNode k line col s) = [commentNode k line col s]"
  "isNamed (commentNode k line col s)"
  by (simp_all add: commentNode_def)

lemma catchClause_simps:
  "kind (catchClause line col stmts) = ''catch_clause''"
  "startLine (catchClause line col stmts) = line"
  "startColumn (catchClause line col stmts) = col"
  "nodeText (catchClause line col stmts) = str ''catch (e) {'' @ [10] @ str ''}''"
  "isNamed (catchClause line col stmts)"
  "field (catchClause line col stmts) ''body'' = Some (catchBody line col stmts)"
  by (simp_all add: catchClause_def catchBody_def field_def token_def)

lemmas tree_defs = catchClause_def catchBody_def consoleCall_def consoleCallOf_def
  statement_def identifierNode_def errorOfLog_def exceptClause_def exceptBlock_def token_def
  program_def tryStatement_def pythonModule_def field_def findAllConsoleLog_def

lemma step_text:
  "trim (str ''// Step 1: validate'') = str ''// Step 1: validate''"
  "\<not> test KEEPER_PATTERN (str ''// Step 1: validate'')"
  "\<not> test (toolDirectives typescript_config) (str ''// Step 1: validate'')"
  "\<not> test OBVIOUS_VERBS (str ''// Step 1: validate'')"
  "\<not> test NARRATOR_PATTERN (str ''// Step 1: validate'')"
  "test STEP_PATTERN (str ''// Step 1: validate'')"
  "\<not> test DIVIDER_0 (str ''// Step 1: validate'')"
  "\<not> test DIVIDER_1 (str ''// Step 1: validate'')"
  "\<not> test DIVIDER_2 (str ''// Step 1: validate'')"
  "\<not> test PLACEHOLDER_PATTERN (str ''// Step 1: validate'')"
  "\<not> test APOLOGETIC_PATTERN (str ''// Step 1: validate'')"
  "\<not> test AI_SPECIFIC_PATTERN (str ''// Step 1: validate'')"
  subgoal by (simp add: rx_defs)
  subgoal by (simp add: rx_defs KEEPER_PATTERN_def)
  subgoal by (simp add: rx_defs typescript_config_def)
  subgoal by (simp add: rx_defs OBVIOUS_VERBS_def)
  subgoal by (simp add: rx_defs NARRATOR_PATTERN_def)
  subgoal by (simp add: rx_defs STEP_PATTERN_def)
  subgoal by (simp add: rx_defs DIVIDER_0_def)
  subgoal by (simp add: rx_defs DIVIDER_1_def)
  subgoal by (simp add: rx_defs DIVIDER_2_def)
  subgoal by (simp add: rx_defs PLACEHOLDER_PATTERN_def)
  subgoal by (simp add: rx_defs APOLOGETIC_PATTERN_def)
  subgoal by (simp add: rx_defs AI_SPECIFIC_PATTERN_def)
  done

lemma step_comment_diagnostics:
  "nodeDiagnostics commentRules (commentNode ''comment'' line col ''// Step 1: validate'')
     typescript_config fn
   = [makeDiagnostic stepComment (commentNode ''comment'' line col ''// Step 1: validate'') fn]"
  by (simp add: nodeDiagnostics_def commentRules_def Let_def isComment_def commentText_def
      shouldKeep_def isToolDirective_def commentNode_simps config_fields step_text
      DIVIDER_PATTERNS_def)

lemma orderExample_nodes:
  "filter (\<lambda>n. kind n = ''comment'' \<and> isNamed n) (dfs orderExample)
     = [commentNode ''comment'' 1 0 ''// Step 1: validate'',
        commentNode ''comment'' 5 0 ''// Step 1: validate'',
        commentNode ''comment'' 9 0 ''// Step 1: validate'']"
  "filter (\<lambda>n. kind n = ''catch_clause'' \<and> isNamed n) (dfs orderExample)
     = [catchClause 0 12 []]"
  by (simp_all add: orderExample_def tree_defs commentNode_def)

lemma empty_catch_checks:
  "check emptyCatchTS (catchClause line col []) l = Some emptyCatchTS"
  "check emptyCatchJava (catchClause line col []) l = Some emptyCatchJava"
  "check consoleLogInCatchTS (catchClause line col []) l = None"
  by (simp_all add: tree_defs Let_def)

lemma todo_text:
  "trim (str ''// Step 1: TODO validate'') = str ''// Step 1: TODO validate''"
  "test KEEPER_PATTERN (str ''// Step 1: TODO validate'')"
  "test STEP_PATTERN (str ''// Step 1: TODO validate'')"
  subgoal by (simp add: rx_defs)
  subgoal by (simp add: rx_defs KEEPER_PATTERN_def)
  subgoal by (simp add: rx_defs STEP_PATTERN_def)
  done

lemma add_text:
  "trim (str ''// Add your code here'') = str ''// Add your code here''"
  "\<not> test KEEPER_PATTERN (str ''// Add your code here'')"
  "\<not> test (toolDirectives typescript_config) (str ''// Add your code here'')"
  "test OBVIOUS_VERBS (str ''// Add your code here'')"
  "\<not> test NARRATOR_PATTERN (str ''// Add your code here'')"
  "\<not> test STEP_PATTERN (str ''// Add your code here'')"
  "\<not> test DIVIDER_0 (str ''// Add your code here'')"
  "\<not> test DIVIDER_1 (str ''// Add your code here'')"
  "\<not> test DIVIDER_2 (str ''// Add your code here'')"
  "\<not> test PLACEHOLDER_PATTERN (str ''// Add your code here'')"
  "\<not> test APOLOGETIC_PATTERN (str ''// Add your code here'')"
  "test AI_SPECIFIC_PATTERN (str ''// Add your code here'')"
  subgoal by (simp add: rx_defs)
  subgoal by (simp add: rx_defs KEEPER_PATTERN_def)
  subgoal by (simp add: rx_defs typescript_config_def)
  subgoal by (simp add: rx_defs OBVIOUS_VERBS_def)
  subgoal by (simp add: rx_defs NARRATOR_PATTERN_def)
  subgoal by (simp add: rx_defs STEP_PATTERN_def)
  subgoal by (simp add: rx_defs DIVIDER_0_def)
  subgoal by (simp add: rx_defs DIVIDER_1_def)
  subgoal by (simp add: rx_defs DIVIDER_2_def)
  subgoal by (simp add: rx_defs PLACEHOLDER_PATTERN_def)
  subgoal by (simp add: rx_defs APOLOGETIC_PATTERN_def)
  subgoal by (simp add: rx_defs AI_SPECIFIC_PATTERN_def)
  done

lemma registry_kinds_disjoint:
  "l \<in> snd ` set LANGUAGES \<Longrightarrow> set (commentKinds l) \<inter> set (astKinds l) = {}"
  by (auto simp: LANGUAGES_def astKinds_def AST_RULE_KINDS_def typescript_config_def
      javascript_config_def python_config_def go_config_def rust_config_def c_config_def
      cpp_config_def java_config_def ruby_config_def)

lemma legacy_marker_pattern:
  "test KEEPER_PATTERN_legacy (str ''// quick hack'')"
  "\<not> test KEEPER_PATTERN (str ''// quick hack'')"
  by (simp_all add: rx_defs KEEPER_PATTERN_legacy_def KEEPER_PATTERN_def)

section \<open>Suppression precedence\<close>

text \<open>
  C1. When \<open>shouldKeep\<close> holds of the trimmed text of a node (a marker token or a tool
  directive), every comment rule returns no match on that node, whatever classifier
  patterns the text matches; the loop over the comment rules pushes nothing for the
  node, and no comment rule is paired with the node among the matches of the scan.
  When the node's kind is not one the structural pass visits, as for every comment
  of a language of the registry, no rule at all is paired with it.
\<close>

theorem suppression_precedence:
  assumes keep: "shouldKeep (commentText n) l"
  shows "(\<forall>r\<in>set commentRules. check r n l = None)
     \<and> checkRules (comment (rulesForLanguage l)) n l filename diagnostics = diagnostics
     \<and> (\<forall>r\<in>set commentRules. (r, n) \<notin> set (scanMatches root l))
     \<and> (kind n \<notin> set (astKinds l) \<longrightarrow> (\<forall>r. (r, n) \<notin> set (scanMatches root l)))
     \<and> scanSource root l filename
         = map (\<lambda>(r, n). makeDiagnostic r n filename) (scanMatches root l)"
proof -
  have none: "\<forall>r\<in>set commentRules. check r n l = None"
    using keep by (simp add: comment_check)
  then have nd: "nodeDiagnostics commentRules n l filename = []"
    by (simp add: nodeDiagnostics_def filter_empty_conv)
  have c: "comment (rulesForLanguage l) = commentRules"
    by (simp add: rulesForLanguage_def)
  have pairs: "\<forall>r\<in>set commentRules. (r, n) \<notin> set (scanMatches root l)"
    using none by (auto simp: scanMatches_def ruleMatches_iff)
  have all: "\<forall>r. (r, n) \<notin> set (scanMatches root l)" if "kind n \<notin> set (astKinds l)"
    using none that by (auto simp: scanMatches_def ruleMatches_iff)
  from none nd c pairs all show ?thesis
    by (simp add: checkRules_append scanSource_matches)
qed

theorem suppression_precedence_witness:
  "shouldKeep (commentText (commentNode ''comment'' 0 0 ''// Step 1: TODO validate''))
       typescript_config
     \<and> classifierMatches stepComment
         (commentText (commentNode ''comment'' 0 0 ''// Step 1: TODO validate''))
     \<and> list_all (\<lambda>r. check r (commentNode ''comment'' 0 0 ''// Step 1: TODO validate'')
            typescript_config = None) commentRules
     \<and> checkRules (comment (rulesForLanguage typescript_config))
          (commentNode ''comment'' 0 0 ''// Step 1: TODO validate'') typescript_config
          (str ''a.ts'') [] = []
     \<and> scanSource (program [commentNode ''comment'' 0 0 ''// Step 1: TODO validate''])
          typescript_config (str ''a.ts'') = []"
proof -
  let ?n = "commentNode ''comment'' 0 0 ''// Step 1: TODO validate''"
  have keep: "shouldKeep (commentText ?n) typescript_config"
    by (simp add: shouldKeep_def commentText_def commentNode_simps todo_text)
  have step: "classifierMatches stepComment (commentText ?n)"
    by (simp add: commentText_def commentNode_simps todo_text)
  note t = suppression_precedence[OF keep, where filename = "str ''a.ts''"
      and diagnostics = "[]" and root = "program [?n]"]
  have none: "list_all (\<lambda>r. check r ?n typescript_config = None) commentRules"
    using t[THEN conjunct1] by (simp only: list_all_iff)
  note unchanged = t[THEN conjunct2, THEN conjunct1]
  have "kind ?n \<notin> set (astKinds typescript_config)"
    by (simp add: commentNode_simps ast_kinds_for config_fields)
  with t have no_pair: "\<forall>r. (r, ?n) \<notin> set (scanMatches (program [?n]) typescript_config)"
    by blast
  have "set (scanMatches (program [?n]) typescript_config) = {}"
  proof -
    have "m = ?n" if "(r, m) \<in> set (scanMatches (program [?n]) typescript_config)" for r m
      using that
      by (auto simp: scanMatches_def ruleMatches_iff program_def commentNode_simps
          ast_kinds_for config_fields)
    with no_pair have "x \<notin> set (scanMatches (program [?n]) typescript_config)" for x
      by (cases x) (simp del: check.simps, blast)
    then show ?thesis by (simp only: set_empty2[symmetric] all_not_in_conv[symmetric]) simp
  qed
  then have empty: "scanSource (program [?n]) typescript_config (str ''a.ts'') = []"
    using t[THEN conjunct2, THEN conjunct2, THEN conjunct2, THEN conjunct2] by simp
  show ?thesis
    by (rule conjI[OF keep conjI[OF step conjI[OF none conjI[OF unchanged empty]]]])
qed

section \<open>The marker test of the suppression filter\<close>

text \<open>
  C2. The marker pattern of \<open>shouldKeep\<close> accepts a text exactly when the text contains
  one of the twelve marker tokens, in upper case as written, with no word character
  directly before or after it. A token in lower case, or inside a longer word, does
  not count.
\<close>

theorem keeper_marker_test: "test KEEPER_PATTERN t \<longleftrightarrow> containsMarker t"
proof -
  have "test KEEPER_PATTERN t \<longleftrightarrow>
      (\<exists>a b. t = a @ b \<and> (\<exists>r\<in>set (map keeperAlt markerTokens). ms False r (adv None a, b) \<noteq> []))"
    by (simp add: test_def KEEPER_PATTERN_source search_iff alts_nonempty markerTokens_def)
  also have "\<dots> \<longleftrightarrow> (\<exists>a b. t = a @ b \<and> (\<exists>tok\<in>set markerTokens.
      (a = [] \<or> \<not> isWord (last a)) \<and> (\<exists>c. b = str tok @ c \<and> (c = [] \<or> \<not> isWord (hd c)))))"
    using markerTokens_wordlike by (simp add: keeperAlt_match adv_None_word cong: bex_cong)
  also have "\<dots> \<longleftrightarrow> containsMarker t"
    unfolding containsMarker_def by blast
  finally show ?thesis .
qed

theorem keeper_marker_test_witness:
  "containsMarker (str ''// TODO: optimize later'')
     \<and> \<not> containsMarker (str ''// todo: optimize later'')
     \<and> \<not> containsMarker (str ''// TODOS and METADATA_NOTES'')"
proof -
  have a: "test KEEPER_PATTERN (str ''// TODO: optimize later'')"
    by (simp add: rx_defs KEEPER_PATTERN_def)
  have b: "\<not> test KEEPER_PATTERN (str ''// todo: optimize later'')"
    by (simp add: rx_defs KEEPER_PATTERN_def)
  have c: "\<not> test KEEPER_PATTERN (str ''// TODOS and METADATA_NOTES'')"
    by (simp add: rx_defs KEEPER_PATTERN_def)
  show ?thesis
    using a b c
      keeper_marker_test[of "str ''// TODO: optimize later''"]
      keeper_marker_test[of "str ''// todo: optimize later''"]
      keeper_marker_test[of "str ''// TODOS and METADATA_NOTES''"]
    by blast
qed


section \<open>Independent rules\<close>

text \<open>
  C3. Let \<open>n\<close> be a comment node that the comment pass of \<open>scanSource\<close> visits,
  after the nodes \<open>xs\<close> and before the nodes \<open>ys\<close>, and let it not be suppressed.
  Then the result of the scan has, at the place of \<open>n\<close>, one diagnostic of \<open>n\<close> for
  each comment rule whose pattern matches the trimmed text, in the order of the rule
  table and each carrying the identifier of its rule, however many rules match; this
  is also what the loop over the rules pushes for \<open>n\<close>. The identifiers of the
  comment rules are pairwise different.
\<close>

theorem multi_rule_independence:
  assumes occ: "visited (commentKinds l) root = xs @ n # ys"
    and nk: "\<not> shouldKeep (commentText n) l"
  shows "scanSource root l filename =
       nodesDiagnostics commentRules xs l filename
       @ map (\<lambda>r. makeDiagnostic r n filename)
           (filter (\<lambda>r. classifierMatches r (commentText n)) commentRules)
       @ nodesDiagnostics commentRules ys l filename
       @ nodesDiagnostics (ast (rulesForLanguage l)) (visited (astKinds l) root) l filename
     \<and> map d_rule (map (\<lambda>r. makeDiagnostic r n filename)
           (filter (\<lambda>r. classifierMatches r (commentText n)) commentRules))
       = map rule_id (filter (\<lambda>r. classifierMatches r (commentText n)) commentRules)
     \<and> distinct (map rule_id commentRules)
     \<and> checkRules (comment (rulesForLanguage l)) n l filename diagnostics
       = diagnostics @ map (\<lambda>r. makeDiagnostic r n filename)
           (filter (\<lambda>r. classifierMatches r (commentText n)) commentRules)"
proof -
  have "n \<in> set (visited (commentKinds l) root)"
    using occ by simp
  then have com: "isComment n l"
    by (simp add: visited_iff isComment_def)
  have c: "comment (rulesForLanguage l) = commentRules"
    by (simp add: rulesForLanguage_def)
  have "filter (\<lambda>r. check r n l = Some r) commentRules
      = filter (\<lambda>r. classifierMatches r (commentText n)) commentRules"
    using com nk by (intro filter_cong) (auto simp: comment_check)
  then have nd: "nodeDiagnostics commentRules n l filename
      = map (\<lambda>r. makeDiagnostic r n filename)
          (filter (\<lambda>r. classifierMatches r (commentText n)) commentRules)"
    by (simp add: nodeDiagnostics_def)
  have scan: "scanSource root l filename =
       nodesDiagnostics commentRules xs l filename
       @ nodeDiagnostics commentRules n l filename
       @ nodesDiagnostics commentRules ys l filename
       @ nodesDiagnostics (ast (rulesForLanguage l)) (visited (astKinds l) root) l filename"
    by (simp add: scanSource_visited occ nodesDiagnostics_append rulesForLanguage_ast)
  have ids: "map d_rule (map (\<lambda>r. makeDiagnostic r n filename)
           (filter (\<lambda>r. classifierMatches r (commentText n)) commentRules))
       = map rule_id (filter (\<lambda>r. classifierMatches r (commentText n)) commentRules)"
    by (simp add: makeDiagnostic_def comp_def)
  have dist: "distinct (map rule_id commentRules)"
    by (simp add: commentRules_def)
  have loop: "checkRules (comment (rulesForLanguage l)) n l filename diagnostics
       = diagnostics @ map (\<lambda>r. makeDiagnostic r n filename)
           (filter (\<lambda>r. classifierMatches r (commentText n)) commentRules)"
    by (simp only: c checkRules_append nd)
  show ?thesis
    by (rule conjI[OF scan[unfolded nd] conjI[OF ids conjI[OF dist loop]]])
qed

theorem multi_rule_independence_witness:
  "visited (commentKinds typescript_config)
       (program [commentNode ''comment'' 0 0 ''// Add your code here''])
     = [] @ commentNode ''comment'' 0 0 ''// Add your code here'' # []
   \<and> \<not> shouldKeep (commentText (commentNode ''comment'' 0 0 ''// Add your code here''))
         typescript_config
   \<and> scanSource (program [commentNode ''comment'' 0 0 ''// Add your code here''])
        typescript_config (str ''a.ts'')
     = [makeDiagnostic obviousComment (commentNode ''comment'' 0 0 ''// Add your code here'')
          (str ''a.ts''),
        makeDiagnostic aiSpecificComment (commentNode ''comment'' 0 0 ''// Add your code here'')
          (str ''a.ts'')]
   \<and> map d_rule (scanSource (program [commentNode ''comment'' 0 0 ''// Add your code here''])
        typescript_config (str ''a.ts''))
     = [''obvious-comment'', ''ai-generated-comment'']"
proof -
  let ?n = "commentNode ''comment'' 0 0 ''// Add your code here''"
  have occ: "visited (commentKinds typescript_config) (program [?n]) = [] @ ?n # []"
    by (simp add: visited_def findAllKind_def program_def commentNode_def config_fields)
  have nk: "\<not> shouldKeep (commentText ?n) typescript_config"
    by (simp add: shouldKeep_def isToolDirective_def commentText_def commentNode_simps add_text)
  have f: "filter (\<lambda>r. classifierMatches r (commentText ?n)) commentRules
      = [obviousComment, aiSpecificComment]"
    by (simp add: commentRules_def commentText_def commentNode_simps add_text
        DIVIDER_PATTERNS_def)
  have st: "visited (astKinds typescript_config) (program [?n]) = []"
    by (simp add: visited_def findAllKind_def program_def commentNode_def ast_kinds_for
        config_fields)
  have scan: "scanSource (program [?n]) typescript_config (str ''a.ts'')
      = [makeDiagnostic obviousComment ?n (str ''a.ts''),
         makeDiagnostic aiSpecificComment ?n (str ''a.ts'')]"
    using multi_rule_independence[OF occ nk, of "str ''a.ts''" "[]", THEN conjunct1]
    by (simp only: f st nodesDiagnostics_def list.map concat.simps append_Nil append_Nil2)
  have ids: "map d_rule (scanSource (program [?n]) typescript_config (str ''a.ts''))
      = [''obvious-comment'', ''ai-generated-comment'']"
    by (simp add: scan makeDiagnostic_def)
  show ?thesis
    by (rule conjI[OF occ conjI[OF nk conjI[OF scan ids]]])
qed

section \<open>Order of the report\<close>

text \<open>
  C4. The result of \<open>scanSource\<close> is the diagnostics of the comment pass followed by
  those of the structural pass. Within a pass the kinds are taken in table order, the
  named nodes of a kind in traversal order, and the rules on a node in table order;
  nothing is sorted afterwards.
\<close>

theorem scan_order:
  "scanSource root l filename =
     [makeDiagnostic r n filename.
        k \<leftarrow> commentKinds l, n \<leftarrow> dfs root, kind n = k \<and> isNamed n,
        r \<leftarrow> commentRules, check r n l = Some r]
     @ [makeDiagnostic r n filename.
        k \<leftarrow> astKinds l, n \<leftarrow> dfs root, kind n = k \<and> isNamed n,
        r \<leftarrow> filter (applicable l) errorHandlingRules, check r n l = Some r]"
  by (simp add: scanSource_passes kindDiagnostics_def findAllKind_def nodeDiagnostics_def
      concat_map_if concat_map_if_single)

theorem scan_order_witness:
  "map (\<lambda>d. (d_rule d, d_line d)) (scanSource orderExample typescript_config (str ''a.ts''))
     = [(''step-comment'', 2), (''step-comment'', 6), (''step-comment'', 10),
        (''empty-error-handler'', 1)]"
proof -
  have "scanSource orderExample typescript_config (str ''a.ts'')
      = [makeDiagnostic stepComment (commentNode ''comment'' 1 0 ''// Step 1: validate'') (str ''a.ts''),
         makeDiagnostic stepComment (commentNode ''comment'' 5 0 ''// Step 1: validate'') (str ''a.ts''),
         makeDiagnostic stepComment (commentNode ''comment'' 9 0 ''// Step 1: validate'') (str ''a.ts''),
         makeDiagnostic emptyCatchTS (catchClause 0 12 []) (str ''a.ts'')]"
    using scan_order[of orderExample typescript_config "str ''a.ts''"]
    by (simp del: check.simps
        add: concat_map_if concat_map_if_single nodeDiagnostics_def[symmetric] orderExample_nodes
          config_fields ast_rules_for ast_kinds_for step_comment_diagnostics)
       (simp del: check.simps add: nodeDiagnostics_def empty_catch_checks)
  then show ?thesis
    by (simp add: makeDiagnostic_def commentNode_simps catchClause_simps)
qed

section \<open>Language isolation\<close>

text \<open>
  C5. A structural rule whose language list does not contain the language of the file
  is not among the rules that the scan consults, and is paired with no node among the
  matches of the scan.
\<close>

theorem language_isolation:
  assumes r: "r \<in> set errorHandlingRules" and ls: "rule_languages r = Some ls"
    and out: "lang l \<notin> set ls"
  shows "r \<notin> set (ast (rulesForLanguage l))
     \<and> (\<forall>n. (r, n) \<notin> set (scanMatches root l))
     \<and> scanSource root l filename
         = map (\<lambda>(r, n). makeDiagnostic r n filename) (scanMatches root l)"
proof -
  have na: "\<not> applicable l r"
    using ls out by (simp add: applicable_def)
  have nc: "r \<notin> set commentRules"
    using r comment_not_error by blast
  show ?thesis
    using na nc by (auto simp: rulesForLanguage_ast scanMatches_def ruleMatches_iff scanSource_matches)
qed

theorem language_isolation_witness:
  "check emptyCatchTS (catchClause 0 12 []) java_config = Some emptyCatchTS
     \<and> emptyCatchTS \<notin> set (ast (rulesForLanguage java_config))
     \<and> (emptyCatchTS, catchClause 0 12 [])
          \<notin> set (scanMatches (program [tryStatement (catchClause 0 12 [])]) java_config)
     \<and> check bareExceptPython (exceptClause [] [passStatement]) typescript_config
          = Some bareExceptPython
     \<and> (bareExceptPython, exceptClause [] [passStatement])
          \<notin> set (scanMatches (program [exceptClause [] [passStatement]]) typescript_config)"
proof -
  have a: "emptyCatchTS \<in> set errorHandlingRules" "bareExceptPython \<in> set errorHandlingRules"
    by (simp_all add: errorHandlingRules_def)
  have b: "lang java_config \<notin> set [''TypeScript'', ''JavaScript'']"
    "lang typescript_config \<notin> set [''python'']"
    by (simp_all add: config_fields)
  have c: "check bareExceptPython (exceptClause [] [passStatement]) typescript_config
      = Some bareExceptPython"
    by (simp add: tree_defs)
  have d: "rule_languages emptyCatchTS = Some [''TypeScript'', ''JavaScript'']"
    "rule_languages bareExceptPython = Some [''python'']"
    by simp_all
  show ?thesis
    using language_isolation[OF a(1) d(1) b(1), of "program [tryStatement (catchClause 0 12 [])]"]
      language_isolation[OF a(2) d(2) b(2), of "program [exceptClause [] [passStatement]]"]
      c empty_catch_checks(1)[of 0 12 java_config]
    by blast
qed

section \<open>Catch clauses in TypeScript and JavaScript\<close>




section \<open>Comments without content\<close>

text \<open>
  C7. When the trimmed text of a comment node is empty, or is a comment delimiter
  and white space only, no classifier pattern matches it, every comment rule returns
  no match, and the scan pushes no diagnostic for the node.
\<close>

theorem delimiter_only_comment:
  assumes d: "delimOnly (commentText n)"
  shows "(\<forall>r\<in>set commentRules. \<not> classifierMatches r (commentText n))
     \<and> (\<forall>r\<in>set commentRules. check r n l = None)
     \<and> checkRules (comment (rulesForLanguage l)) n l filename diagnostics = diagnostics"
proof -
  have no: "\<forall>r\<in>set commentRules. \<not> classifierMatches r (commentText n)"
    using d
    by (simp add: commentRules_def DIVIDER_PATTERNS_def OBVIOUS_VERBS_delimOnly
        NARRATOR_PATTERN_delimOnly STEP_PATTERN_delimOnly PLACEHOLDER_PATTERN_delimOnly
        APOLOGETIC_PATTERN_delimOnly AI_SPECIFIC_PATTERN_delimOnly DIVIDER_0_delimOnly
        DIVIDER_1_delimOnly DIVIDER_2_delimOnly)
  then have none: "\<forall>r\<in>set commentRules. check r n l = None"
    by (simp add: comment_check)
  then have "nodeDiagnostics commentRules n l filename = []"
    by (simp add: nodeDiagnostics_def filter_empty_conv)
  with no none show ?thesis
    by (simp add: rulesForLanguage_def checkRules_append)
qed

theorem delimiter_only_comment_witness:
  "delimOnly (commentText (commentNode ''comment'' 0 0 ''/*   */''))
     \<and> isComment (commentNode ''comment'' 0 0 ''/*   */'') typescript_config
     \<and> list_all (\<lambda>r. check r (commentNode ''comment'' 0 0 ''/*   */'') typescript_config = None)
          commentRules
     \<and> checkRules (comment (rulesForLanguage typescript_config))
          (commentNode ''comment'' 0 0 ''/*   */'') typescript_config (str ''a.ts'') [] = []"
proof -
  let ?n = "commentNode ''comment'' 0 0 ''/*   */''"
  have t: "commentText ?n = str ''/*'' @ [32, 32, 32] @ str ''*/''"
    by (simp add: commentText_def commentNode_simps rx_defs)
  have "list_all isSpace [32, 32, 32]"
    by (simp add: isSpace_def)
  then have d: "delimOnly (commentText ?n)"
    unfolding t delimOnly_def by blast
  have com: "isComment ?n typescript_config"
    by (simp add: isComment_def commentNode_simps config_fields)
  note th = delimiter_only_comment[OF d, where l = typescript_config
      and filename = "str ''a.ts''" and diagnostics = "[]"]
  have none: "list_all (\<lambda>r. check r ?n typescript_config = None) commentRules"
    using th[THEN conjunct2, THEN conjunct1] by (simp only: list_all_iff)
  note unchanged = th[THEN conjunct2, THEN conjunct2]
  show ?thesis
    by (rule conjI[OF d conjI[OF com conjI[OF none unchanged]]])
qed

section \<open>Position and text of a diagnostic\<close>

text \<open>
  C8. The diagnostics of a scan correspond, one to one and in order, to the matches of
  the scan, the pairs of a rule and a named node of the tree on which the rule
  returned itself. The diagnostic of a pair carries the identifier of the rule and the
  given file name; its line and column are the start of the range of that node plus
  one, and its text is the part of the text of that node before the first line feed.
\<close>

theorem diagnostic_position_text:
  "list_all2 (\<lambda>d (r, n). d_rule d = rule_id r \<and> d_file d = filename
        \<and> d_line d = startLine n + 1 \<and> d_column d = startColumn n + 1
        \<and> (\<exists>rest. nodeText n = d_text d @ rest \<and> 10 \<notin> set (d_text d)
              \<and> (rest = [] \<or> hd rest = 10)))
     (scanSource root l filename) (scanMatches root l)
   \<and> (\<forall>(r, n)\<in>set (scanMatches root l).
         n \<in> set (dfs root) \<and> isNamed n \<and> check r n l = Some r)"
proof -
  let ?p = "\<lambda>u. u \<noteq> (10::nat)"
  have ex: "\<exists>rest. nodeText n = takeWhile ?p (nodeText n) @ rest
      \<and> 10 \<notin> set (takeWhile ?p (nodeText n)) \<and> (rest = [] \<or> hd rest = 10)" for n
  proof -
    have split: "nodeText n = takeWhile ?p (nodeText n) @ dropWhile ?p (nodeText n)"
      by simp
    have nl: "10 \<notin> set (takeWhile ?p (nodeText n))"
      by (auto dest: set_takeWhileD)
    have rest: "dropWhile ?p (nodeText n) = [] \<or> hd (dropWhile ?p (nodeText n)) = 10"
      using hd_dropWhile[of ?p "nodeText n"] by auto
    show ?thesis
      using split nl rest by (intro exI[of _ "dropWhile ?p (nodeText n)"]) blast
  qed
  have one: "list_all2 (\<lambda>d (r, n). d_rule d = rule_id r \<and> d_file d = filename
        \<and> d_line d = startLine n + 1 \<and> d_column d = startColumn n + 1
        \<and> (\<exists>rest. nodeText n = d_text d @ rest \<and> 10 \<notin> set (d_text d)
              \<and> (rest = [] \<or> hd rest = 10)))
     (map (\<lambda>(r, n). makeDiagnostic r n filename) ms) ms" for ms
    using ex by (induction ms) (auto simp: makeDiagnostic_def)
  have two: "\<forall>(r, n)\<in>set (scanMatches root l).
      n \<in> set (dfs root) \<and> isNamed n \<and> check r n l = Some r"
    by (auto simp: scanMatches_def ruleMatches_iff)
  show ?thesis
    using one[of "scanMatches root l"] two by (simp only: scanSource_matches)
qed

theorem diagnostic_position_text_witness:
  "scanMatches positionExample typescript_config
     = [(emptyCatchTS, catchClause 0 12 []), (emptyCatchTS, catchClause 7 2 [])]
   \<and> map (\<lambda>d. (d_rule d, d_line d, d_column d, d_text d))
        (scanSource positionExample typescript_config (str ''a.ts''))
     = [(''empty-error-handler'', 1, 13, str ''catch (e) {''),
        (''empty-error-handler'', 8, 3, str ''catch (e) {'')]
   \<and> list_all2 (\<lambda>d (r, n). d_rule d = rule_id r \<and> d_file d = str ''a.ts''
        \<and> d_line d = startLine n + 1 \<and> d_column d = startColumn n + 1
        \<and> (\<exists>rest. nodeText n = d_text d @ rest \<and> 10 \<notin> set (d_text d)
              \<and> (rest = [] \<or> hd rest = 10)))
       (scanSource positionExample typescript_config (str ''a.ts''))
       [(emptyCatchTS, catchClause 0 12 []), (emptyCatchTS, catchClause 7 2 [])]"
proof -
  have cv: "findAllKind positionExample ''comment'' = []"
    by (simp add: findAllKind_def positionExample_def tree_defs)
  have sv: "findAllKind positionExample ''catch_clause'' = [catchClause 0 12 [], catchClause 7 2 []]"
    by (simp add: findAllKind_def positionExample_def tree_defs)
  have ms: "scanMatches positionExample typescript_config
      = [(emptyCatchTS, catchClause 0 12 []), (emptyCatchTS, catchClause 7 2 [])]"
    by (simp del: check.simps
        add: scanMatches_def ruleMatches_def findAllKind_def[symmetric] cv sv config_fields
          ast_rules_for ast_kinds_for empty_catch_checks)
  have vals: "map (\<lambda>d. (d_rule d, d_line d, d_column d, d_text d))
        (scanSource positionExample typescript_config (str ''a.ts''))
     = [(''empty-error-handler'', 1, 13, str ''catch (e) {''),
        (''empty-error-handler'', 8, 3, str ''catch (e) {'')]"
    by (simp add: scanSource_matches ms makeDiagnostic_def catchClause_simps str_def)
  note t = diagnostic_position_text[of "str ''a.ts''" positionExample typescript_config,
      THEN conjunct1, unfolded ms]
  show ?thesis
    by (rule conjI[OF ms conjI[OF vals t]])
qed

section \<open>Bare except with pass in Python\<close>

text \<open>
  C9. For Python, let \<open>n\<close> be an except clause that the structural pass of
  \<open>scanSource\<close> visits, after the nodes \<open>xs\<close> and before the nodes \<open>ys\<close>, with no
  \<open>identifier\<close> or \<open>as_pattern\<close> child and with a block whose only named child is a
  pass statement. Then the result of the scan has at the place of \<open>n\<close> two
  diagnostics of \<open>n\<close>, \<open>empty-error-handler\<close> and then \<open>silent-exception\<close>; they
  are what the loop over the rules pushes for \<open>n\<close>.
\<close>

theorem python_bare_except_pass:
  assumes py: "lang l = ''python''"
    and occ: "visited (astKinds l) root = xs @ n # ys"
    and bare: "\<not> list_ex (\<lambda>c. kind c = ''identifier'' \<or> kind c = ''as_pattern'') (children n)"
    and body: "find (\<lambda>c. kind c = ''block'') (children n) = Some body"
    and stmts: "filter isNamed (children body) = [p]" and pass: "kind p = ''pass_statement''"
  shows "scanSource root l filename =
       nodesDiagnostics commentRules (visited (commentKinds l) root) l filename
       @ nodesDiagnostics (ast (rulesForLanguage l)) xs l filename
       @ [makeDiagnostic bareExceptPython n filename,
          makeDiagnostic passInExceptPython n filename]
       @ nodesDiagnostics (ast (rulesForLanguage l)) ys l filename
     \<and> d_rule (makeDiagnostic bareExceptPython n filename) = ''empty-error-handler''
     \<and> d_rule (makeDiagnostic passInExceptPython n filename) = ''silent-exception''
     \<and> checkRules (ast (rulesForLanguage l)) n l filename diagnostics
       = diagnostics @ [makeDiagnostic bareExceptPython n filename,
                        makeDiagnostic passInExceptPython n filename]"
proof -
  have "n \<in> set (visited (astKinds l) root)"
    using occ by simp
  then have k: "kind n = ''except_clause''"
    by (simp add: visited_iff ast_kinds_for(4)[OF py])
  have b: "check bareExceptPython n l = Some bareExceptPython"
    using k bare by simp
  have p: "check passInExceptPython n l = Some passInExceptPython"
    using k body stmts pass by simp
  have nd: "nodeDiagnostics (ast (rulesForLanguage l)) n l filename
      = [makeDiagnostic bareExceptPython n filename, makeDiagnostic passInExceptPython n filename]"
    using b p
    by (simp del: check.simps
        add: rulesForLanguage_ast ast_rules_for(4)[OF py] nodeDiagnostics_def)
  have scan: "scanSource root l filename =
       nodesDiagnostics commentRules (visited (commentKinds l) root) l filename
       @ nodesDiagnostics (ast (rulesForLanguage l)) xs l filename
       @ nodeDiagnostics (ast (rulesForLanguage l)) n l filename
       @ nodesDiagnostics (ast (rulesForLanguage l)) ys l filename"
    by (simp add: scanSource_visited occ nodesDiagnostics_append rulesForLanguage_ast)
  show ?thesis
    by (simp add: scan checkRules_append nd) (simp add: makeDiagnostic_def)
qed

theorem python_bare_except_pass_witness:
  "scanSource (pythonModule (exceptClause [] [passStatement])) python_config (str ''a.py'')
     = [makeDiagnostic bareExceptPython (exceptClause [] [passStatement]) (str ''a.py''),
        makeDiagnostic passInExceptPython (exceptClause [] [passStatement]) (str ''a.py'')]
   \<and> map d_rule (scanSource (pythonModule (exceptClause [] [passStatement])) python_config
        (str ''a.py''))
     = [''empty-error-handler'', ''silent-exception'']"
proof -
  let ?n = "exceptClause [] [passStatement]"
  let ?root = "pythonModule ?n"
  have occ: "visited (astKinds python_config) ?root = [] @ ?n # []"
    by (simp add: visited_def findAllKind_def ast_kinds_for config_fields tree_defs
        passStatement_def)
  have cv: "visited (commentKinds python_config) ?root = []"
    by (simp add: visited_def findAllKind_def config_fields tree_defs passStatement_def)
  have bare: "\<not> list_ex (\<lambda>c. kind c = ''identifier'' \<or> kind c = ''as_pattern'') (children ?n)"
    by (simp add: exceptClause_def exceptBlock_def token_def)
  have body: "find (\<lambda>c. kind c = ''block'') (children ?n) = Some (exceptBlock [passStatement])"
    by (simp add: exceptClause_def exceptBlock_def token_def)
  have stmts: "filter isNamed (children (exceptBlock [passStatement])) = [passStatement]"
    by (simp add: exceptBlock_def passStatement_def)
  have pass: "kind passStatement = ''pass_statement''"
    by (simp add: passStatement_def)
  have scan: "scanSource ?root python_config (str ''a.py'')
      = [makeDiagnostic bareExceptPython ?n (str ''a.py''),
         makeDiagnostic passInExceptPython ?n (str ''a.py'')]"
    using python_bare_except_pass[OF config_fields(3) occ bare body stmts pass,
        where filename = "str ''a.py''" and diagnostics = "[]", THEN conjunct1]
    by (simp add: cv nodesDiagnostics_def)
  have ids: "map d_rule (scanSource ?root python_config (str ''a.py''))
      = [''empty-error-handler'', ''silent-exception'']"
    by (simp add: scan makeDiagnostic_def)
  show ?thesis
    by (rule conjI[OF scan ids])
qed

section \<open>Logging in a catch clause\<close>

text \<open>
  C10. For TypeScript and JavaScript, the rule \<open>log-in-error-handler\<close> is paired with
  a node among the matches of the scan exactly when the node is a named catch clause
  of the tree and the pattern \<^verbatim>\<open>console.log($$$ARGS)\<close> matches somewhere in its
  subtree, at any depth; nothing else in the clause, such as a call of
  \<^verbatim>\<open>console.error\<close> or the number and position of other statements, has an
  influence. The scan then reports the diagnostic of the rule for that node.
\<close>

theorem console_log_anywhere:
  assumes ts: "lang l = ''TypeScript'' \<or> lang l = ''JavaScript''"
  shows "((consoleLogInCatchTS, n) \<in> set (scanMatches root l)
            \<longleftrightarrow> n \<in> set (dfs root) \<and> isNamed n \<and> kind n = ''catch_clause''
                  \<and> containsLogCall n)
     \<and> (n \<in> set (dfs root) \<and> isNamed n \<and> kind n = ''catch_clause'' \<and> containsLogCall n
          \<longrightarrow> makeDiagnostic consoleLogInCatchTS n filename
                \<in> set (scanSource root l filename))
     \<and> scanSource root l filename
         = map (\<lambda>(r, n). makeDiagnostic r n filename) (scanMatches root l)"
proof -
  have rules: "filter (applicable l) errorHandlingRules = [emptyCatchTS, consoleLogInCatchTS]"
    using ts by (auto simp: ast_rules_for)
  have kinds: "astKinds l = [''catch_clause'']"
    using ts by (auto simp: ast_kinds_for)
  have nc: "consoleLogInCatchTS \<notin> set commentRules"
    by (simp add: commentRules_def)
  have iff: "(consoleLogInCatchTS, n) \<in> set (scanMatches root l)
      \<longleftrightarrow> n \<in> set (dfs root) \<and> isNamed n \<and> kind n = ''catch_clause'' \<and> containsLogCall n"
    using nc
    by (simp del: check.simps add: scanMatches_def ruleMatches_iff rules kinds log_check)
  have mem: "makeDiagnostic consoleLogInCatchTS n filename \<in> set (scanSource root l filename)"
    if "(consoleLogInCatchTS, n) \<in> set (scanMatches root l)"
    using that by (force simp: scanSource_matches)
  show ?thesis
    using iff mem by (simp only: scanSource_matches) blast
qed

theorem console_log_anywhere_witness:
  "callsConsoleError (consoleCall ''error'')
   \<and> containsLogCall (catchClause 0 12 [consoleCall ''error'', consoleCall ''log''])
   \<and> makeDiagnostic consoleLogInCatchTS
       (catchClause 0 12 [consoleCall ''error'', consoleCall ''log'']) (str ''a.ts'')
       \<in> set (scanSource
           (program [tryStatement (catchClause 0 12 [consoleCall ''error'', consoleCall ''log''])])
           typescript_config (str ''a.ts''))
   \<and> map d_rule (scanSource
           (program [tryStatement (catchClause 0 12 [consoleCall ''error'', consoleCall ''log''])])
           typescript_config (str ''a.ts''))
     = [''log-in-error-handler'']"
proof -
  let ?n = "catchClause 0 12 [consoleCall ''error'', consoleCall ''log'']"
  let ?root = "program [tryStatement ?n]"
  have ts: "lang typescript_config = ''TypeScript'' \<or> lang typescript_config = ''JavaScript''"
    by (simp add: config_fields)
  have err: "callsConsoleError (consoleCall ''error'')"
    by (simp add: callsConsoleError_def consoleCall_def statement_def consoleCallOf_def
        field_def token_def str_def)
  have lg: "containsLogCall ?n"
    by (simp add: tree_defs)
  have n: "?n \<in> set (dfs ?root)"
    by (simp add: program_def tryStatement_def token_def catchClause_def)
  have mem: "makeDiagnostic consoleLogInCatchTS ?n (str ''a.ts'')
      \<in> set (scanSource ?root typescript_config (str ''a.ts''))"
    using console_log_anywhere[OF ts, of ?n ?root "str ''a.ts''", THEN conjunct2, THEN conjunct1]
      n lg catchClause_simps(1,5)[of 0 12 "[consoleCall ''error'', consoleCall ''log'']"]
    by blast
  have cv: "visited [''comment''] ?root = []"
    by (simp add: visited_def findAllKind_def tree_defs)
  have sv: "visited [''catch_clause''] ?root = [?n]"
    by (simp add: visited_def findAllKind_def tree_defs)
  have named: "filter isNamed (children (catchBody 0 12 [consoleCall ''error'', consoleCall ''log'']))
      = [consoleCall ''error'', consoleCall ''log'']"
    by (simp add: catchBody_def token_def consoleCall_def statement_def)
  have e: "check emptyCatchTS ?n typescript_config = None"
    by (simp add: catchClause_simps named)
  have c: "check consoleLogInCatchTS ?n typescript_config = Some consoleLogInCatchTS"
    using lg by (simp del: check.simps add: log_check catchClause_simps)
  have ids: "map d_rule (scanSource ?root typescript_config (str ''a.ts''))
      = [''log-in-error-handler'']"
    by (simp del: check.simps
        add: scanSource_visited cv sv nodesDiagnostics_def nodeDiagnostics_def ast_rules_for
          ast_kinds_for config_fields e c makeDiagnostic_def)
  show ?thesis
    by (rule conjI[OF err conjI[OF lg conjI[OF mem ids]]])
qed

end
